theory Spec2Isabelle
  imports Main
begin

section \<open>The VimbaX GStreamer source element (gstvmbsrc.c)\<close>

text \<open>
  The element talks to a camera through the VmbC library. The library and the
  camera are outside the repository, so every call into them is recorded in a
  history of calls and answered by a device function: the answer may depend
  on everything that was called before. The element's own functions are
  translated one for one; a function that touches the element returns the
  updated element.
\<close>

subsection \<open>Error codes, enumerations and frame descriptors\<close>

datatype VmbError_t =
    VmbErrorSuccess
  | VmbErrorNotFound
  | VmbErrorInvalidValue
  | VmbErrorResources
  | VmbErrorOther int

datatype VmbFrameStatus_t =
    VmbFrameStatusComplete
  | VmbFrameStatusIncomplete
  | VmbFrameStatusTooSmall
  | VmbFrameStatusInvalid

datatype GstState =
    GST_STATE_VOID_PENDING
  | GST_STATE_NULL
  | GST_STATE_READY
  | GST_STATE_PAUSED
  | GST_STATE_PLAYING

datatype triggerselector =
    GST_VMBSRC_TRIGGERSELECTOR_UNCHANGED
  | GST_VMBSRC_TRIGGERSELECTOR_ACQUISITION_START
  | GST_VMBSRC_TRIGGERSELECTOR_ACQUISITION_END
  | GST_VMBSRC_TRIGGERSELECTOR_ACQUISITION_ACTIVE
  | GST_VMBSRC_TRIGGERSELECTOR_FRAME_START
  | GST_VMBSRC_TRIGGERSELECTOR_FRAME_END
  | GST_VMBSRC_TRIGGERSELECTOR_FRAME_ACTIVE
  | GST_VMBSRC_TRIGGERSELECTOR_FRAME_BURST_START
  | GST_VMBSRC_TRIGGERSELECTOR_FRAME_BURST_END
  | GST_VMBSRC_TRIGGERSELECTOR_FRAME_BURST_ACTIVE
  | GST_VMBSRC_TRIGGERSELECTOR_LINE_START
  | GST_VMBSRC_TRIGGERSELECTOR_EXPOSURE_START
  | GST_VMBSRC_TRIGGERSELECTOR_EXPOSURE_END
  | GST_VMBSRC_TRIGGERSELECTOR_EXPOSURE_ACTIVE

datatype triggermode =
    GST_VMBSRC_TRIGGERMODE_UNCHANGED
  | GST_VMBSRC_TRIGGERMODE_OFF
  | GST_VMBSRC_TRIGGERMODE_ON

datatype triggersource =
    GST_VMBSRC_TRIGGERSOURCE_UNCHANGED
  | GST_VMBSRC_TRIGGERSOURCE_LINE0
  | GST_VMBSRC_TRIGGERSOURCE_LINE1
  | GST_VMBSRC_TRIGGERSOURCE_LINE2
  | GST_VMBSRC_TRIGGERSOURCE_LINE3
  | GST_VMBSRC_TRIGGERSOURCE_ACTION0
  | GST_VMBSRC_TRIGGERSOURCE_ACTION1
  | GST_VMBSRC_TRIGGERSOURCE_ACTION2
  | GST_VMBSRC_TRIGGERSOURCE_ACTION3

datatype triggeractivation =
    GST_VMBSRC_TRIGGERACTIVATION_UNCHANGED
  | GST_VMBSRC_TRIGGERACTIVATION_RISING_EDGE
  | GST_VMBSRC_TRIGGERACTIVATION_FALLING_EDGE
  | GST_VMBSRC_TRIGGERACTIVATION_ANY_EDGE
  | GST_VMBSRC_TRIGGERACTIVATION_LEVEL_HIGH
  | GST_VMBSRC_TRIGGERACTIVATION_LEVEL_LOW

datatype incomplete_frame_handling_t =
    GST_VMBSRC_INCOMPLETE_FRAME_HANDLING_DROP
  | GST_VMBSRC_INCOMPLETE_FRAME_HANDLING_SUBMIT

datatype allocation_mode_t =
    GST_VMBSRC_ALLOCATION_MODE_ANNOUNCE_FRAME
  | GST_VMBSRC_ALLOCATION_MODE_ALLOC_AND_ANNOUNCE_FRAME

text \<open>
  The nick of an enumeration value is the third entry of its row in the
  GEnumValue tables; it is the string handed to VmbFeatureEnumSet.
\<close>

fun triggerselector_nick :: "triggerselector \<Rightarrow> string" where
  "triggerselector_nick GST_VMBSRC_TRIGGERSELECTOR_UNCHANGED = ''UNCHANGED''"
| "triggerselector_nick GST_VMBSRC_TRIGGERSELECTOR_ACQUISITION_START = ''AcquisitionStart''"
| "triggerselector_nick GST_VMBSRC_TRIGGERSELECTOR_ACQUISITION_END = ''AcquisitionEnd''"
| "triggerselector_nick GST_VMBSRC_TRIGGERSELECTOR_ACQUISITION_ACTIVE = ''AcquisitionActive''"
| "triggerselector_nick GST_VMBSRC_TRIGGERSELECTOR_FRAME_START = ''FrameStart''"
| "triggerselector_nick GST_VMBSRC_TRIGGERSELECTOR_FRAME_END = ''FrameEnd''"
| "triggerselector_nick GST_VMBSRC_TRIGGERSELECTOR_FRAME_ACTIVE = ''FrameActive''"
| "triggerselector_nick GST_VMBSRC_TRIGGERSELECTOR_FRAME_BURST_START = ''FrameBurstStart''"
| "triggerselector_nick GST_VMBSRC_TRIGGERSELECTOR_FRAME_BURST_END = ''FrameBurstEnd''"
| "triggerselector_nick GST_VMBSRC_TRIGGERSELECTOR_FRAME_BURST_ACTIVE = ''FrameBurstActive''"
| "triggerselector_nick GST_VMBSRC_TRIGGERSELECTOR_LINE_START = ''LineStart''"
| "triggerselector_nick GST_VMBSRC_TRIGGERSELECTOR_EXPOSURE_START = ''ExposureStart''"
| "triggerselector_nick GST_VMBSRC_TRIGGERSELECTOR_EXPOSURE_END = ''ExposureEnd''"
| "triggerselector_nick GST_VMBSRC_TRIGGERSELECTOR_EXPOSURE_ACTIVE = ''ExposureActive''"

fun triggermode_nick :: "triggermode \<Rightarrow> string" where
  "triggermode_nick GST_VMBSRC_TRIGGERMODE_UNCHANGED = ''UNCHANGED''"
| "triggermode_nick GST_VMBSRC_TRIGGERMODE_OFF = ''Off''"
| "triggermode_nick GST_VMBSRC_TRIGGERMODE_ON = ''On''"

fun triggersource_nick :: "triggersource \<Rightarrow> string" where
  "triggersource_nick GST_VMBSRC_TRIGGERSOURCE_UNCHANGED = ''UNCHANGED''"
| "triggersource_nick GST_VMBSRC_TRIGGERSOURCE_LINE0 = ''Line0''"
| "triggersource_nick GST_VMBSRC_TRIGGERSOURCE_LINE1 = ''Line1''"
| "triggersource_nick GST_VMBSRC_TRIGGERSOURCE_LINE2 = ''Line2''"
| "triggersource_nick GST_VMBSRC_TRIGGERSOURCE_LINE3 = ''Line3''"
| "triggersource_nick GST_VMBSRC_TRIGGERSOURCE_ACTION0 = ''Action0''"
| "triggersource_nick GST_VMBSRC_TRIGGERSOURCE_ACTION1 = ''Action1''"
| "triggersource_nick GST_VMBSRC_TRIGGERSOURCE_ACTION2 = ''Action2''"
| "triggersource_nick GST_VMBSRC_TRIGGERSOURCE_ACTION3 = ''Action3''"

fun triggeractivation_nick :: "triggeractivation \<Rightarrow> string" where
  "triggeractivation_nick GST_VMBSRC_TRIGGERACTIVATION_UNCHANGED = ''UNCHANGED''"
| "triggeractivation_nick GST_VMBSRC_TRIGGERACTIVATION_RISING_EDGE = ''RisingEdge''"
| "triggeractivation_nick GST_VMBSRC_TRIGGERACTIVATION_FALLING_EDGE = ''FallingEdge''"
| "triggeractivation_nick GST_VMBSRC_TRIGGERACTIVATION_ANY_EDGE = ''AnyEdge''"
| "triggeractivation_nick GST_VMBSRC_TRIGGERACTIVATION_LEVEL_HIGH = ''LevelHigh''"
| "triggeractivation_nick GST_VMBSRC_TRIGGERACTIVATION_LEVEL_LOW = ''LevelLow''"

text \<open>
  A frame descriptor (VmbFrame_t), with the fields the element reads or
  writes. Pointers are addresses, 0 being NULL; context[0] holds the address
  of a GAsyncQueue or NULL. memset to 0 gives \<open>zero_frame\<close>
  (VmbFrameStatusComplete is the status numbered 0).
\<close>

record VmbFrame_t =
  buffer :: nat
  bufferSize :: nat
  context0 :: "nat option"
  receiveStatus :: VmbFrameStatus_t
  frameID :: nat

definition zero_frame :: VmbFrame_t where
  "zero_frame = \<lparr>buffer = 0, bufferSize = 0, context0 = None,
     receiveStatus = VmbFrameStatusComplete, frameID = 0\<rparr>"

subsection \<open>Calls into the VmbC library and the device that answers them\<close>

datatype vmb_call =
    VmbFeatureIntSet string int
  | VmbFeatureIntGet string
  | VmbFeatureIntRangeQuery string
  | VmbFeatureIntIncrementQuery string
  | VmbFeatureEnumSet string string
  | VmbFeatureEnumRangeQuery string
  | VmbFeatureEnumIsAvailable string nat
  | VmbPayloadSizeGet
  | VmbAlignedAlloc int nat
  | VmbAlignedFree nat
  | libc_free nat
  | VmbFrameAnnounce nat
  | VmbFrameRevoke nat
  | VmbCaptureStart
  | VmbCaptureFrameQueue nat
  | VmbFeatureCommandRun string
  | VmbFeatureCommandIsDone string
  | VmbCaptureEnd
  | VmbCaptureQueueFlush

text \<open>
  An answer is the returned error code and up to two integers written
  through the out parameters (a value, a minimum and a maximum, a count, a
  flag, an address). Frame descriptors are named by their index in
  frame_buffers.
\<close>

record vmb_answer =
  rc :: VmbError_t
  ival :: int
  ival2 :: int

type_synonym device = "vmb_call list \<Rightarrow> vmb_call \<Rightarrow> vmb_answer"

text \<open>
  The element (GstVmbSrc). \<open>queue_store\<close> gives the contents of every
  GAsyncQueue object by address (indices of frame descriptors, oldest
  first), \<open>queue_live\<close> the addresses not yet released by the last unref.
  Where the allocator of GLib puts a new queue is not for the element to
  say: \<open>queue_addr\<close> gives, for every n, the address of the n-th queue made,
  and \<open>queue_count\<close> counts the queues made so far. \<open>calls\<close> is the
  history of calls into the library.
\<close>

record GstVmbSrc =
  prop_offsetx :: int
  prop_offsety :: int
  prop_width :: int
  prop_height :: int
  prop_triggerselector :: triggerselector
  prop_triggermode :: triggermode
  prop_triggersource :: triggersource
  prop_triggeractivation :: triggeractivation
  incomplete_frame_handling :: incomplete_frame_handling_t
  allocation_mode :: allocation_mode_t
  supported_formats :: "(string \<times> string) list"
  is_acquiring :: bool
  frame_buffers :: "nat \<Rightarrow> VmbFrame_t"
  filled_frame_queue :: "nat option"
  queue_store :: "nat \<Rightarrow> nat list"
  queue_live :: "nat set"
  queue_addr :: "nat \<Rightarrow> nat"
  queue_count :: nat
  num_frames_pushed :: nat
  calls :: "vmb_call list"

definition vmb :: "device \<Rightarrow> vmb_call \<Rightarrow> GstVmbSrc \<Rightarrow> vmb_answer \<times> GstVmbSrc" where
  "vmb dev c s = (dev (calls s) c, s\<lparr>calls := calls s @ [c]\<rparr>)"

text \<open>The calls a function has added to the history of \<open>s\<close>.\<close>

definition new_calls :: "GstVmbSrc \<Rightarrow> GstVmbSrc \<Rightarrow> vmb_call list" where
  "new_calls s s' = drop (length (calls s)) (calls s')"

fun is_set :: "vmb_call \<Rightarrow> bool" where
  "is_set (VmbFeatureIntSet n v) = True"
| "is_set (VmbFeatureEnumSet n v) = True"
| "is_set c = False"

subsection \<open>log_available_enum_entries\<close>

fun enum_is_available_loop :: "device \<Rightarrow> string \<Rightarrow> nat list \<Rightarrow> GstVmbSrc \<Rightarrow> GstVmbSrc" where
  "enum_is_available_loop dev feat_name [] s = s"
| "enum_is_available_loop dev feat_name (i # is) s =
     enum_is_available_loop dev feat_name is
       (snd (vmb dev (VmbFeatureEnumIsAvailable feat_name i) s))"

definition log_available_enum_entries :: "device \<Rightarrow> string \<Rightarrow> GstVmbSrc \<Rightarrow> GstVmbSrc" where
  "log_available_enum_entries dev feat_name s =
     (case vmb dev (VmbFeatureEnumRangeQuery feat_name) s of (r1, s1) \<Rightarrow>
      case vmb dev (VmbFeatureEnumRangeQuery feat_name) s1 of (r2, s2) \<Rightarrow>
        enum_is_available_loop dev feat_name [0..<nat (ival r1)] s2)"

subsection \<open>apply_trigger_settings\<close>

text \<open>
  One block of apply_trigger_settings: nothing when the property is the
  UNCHANGED entry, else one VmbFeatureEnumSet with the nick; on
  VmbErrorInvalidValue the available entries are logged, except for
  TriggerMode. \<open>result\<close> keeps its value when the block is skipped.
\<close>

definition set_trigger_feature ::
  "device \<Rightarrow> string \<Rightarrow> bool \<Rightarrow> string \<Rightarrow> bool \<Rightarrow> VmbError_t \<times> GstVmbSrc \<Rightarrow> VmbError_t \<times> GstVmbSrc" where
  "set_trigger_feature dev feat_name unchanged nick log_entries p =
     (case p of (result, s) \<Rightarrow>
        if unchanged then (result, s)
        else (case vmb dev (VmbFeatureEnumSet feat_name nick) s of (r, s1) \<Rightarrow>
                if rc r = VmbErrorSuccess then (rc r, s1)
                else if log_entries \<and> rc r = VmbErrorInvalidValue
                     then (rc r, log_available_enum_entries dev feat_name s1)
                     else (rc r, s1)))"

definition apply_trigger_settings :: "device \<Rightarrow> GstVmbSrc \<Rightarrow> VmbError_t \<times> GstVmbSrc" where
  "apply_trigger_settings dev s =
     (let p0 = (VmbErrorSuccess, s);
          p1 = set_trigger_feature dev ''TriggerSelector''
                 (prop_triggerselector s = GST_VMBSRC_TRIGGERSELECTOR_UNCHANGED)
                 (triggerselector_nick (prop_triggerselector s)) True p0;
          p2 = set_trigger_feature dev ''TriggerActivation''
                 (prop_triggeractivation s = GST_VMBSRC_TRIGGERACTIVATION_UNCHANGED)
                 (triggeractivation_nick (prop_triggeractivation s)) True p1;
          p3 = set_trigger_feature dev ''TriggerSource''
                 (prop_triggersource s = GST_VMBSRC_TRIGGERSOURCE_UNCHANGED)
                 (triggersource_nick (prop_triggersource s)) True p2;
          p4 = set_trigger_feature dev ''TriggerMode''
                 (prop_triggermode s = GST_VMBSRC_TRIGGERMODE_UNCHANGED)
                 (triggermode_nick (prop_triggermode s)) False p3
      in p4)"

subsection \<open>The frame buffer pool\<close>

text \<open>
  NUM_FRAME_BUFFERS is defined in gstvmbsrc.h, which is not among the
  sources; the functions that loop over frame_buffers take it as the
  parameter \<open>N\<close>.
\<close>

definition set_frame :: "nat \<Rightarrow> VmbFrame_t \<Rightarrow> GstVmbSrc \<Rightarrow> GstVmbSrc" where
  "set_frame i f s = s\<lparr>frame_buffers := (frame_buffers s)(i := f)\<rparr>"

text \<open>
  The second half of the loop body of alloc_and_announce_buffers: bufferSize
  and context[0] are written, the frame is announced, and on failure its
  memory is handed to free and the descriptor cleared. The result is the
  error code and whether the loop is left by break. VmbFrameAnnounce gets
  the descriptor by pointer: for a descriptor without memory the transport
  layer allocates, and the address in the answer is what the buffer field
  holds afterwards (0 if the library leaves the field alone).
\<close>

definition announce_frame ::
  "device \<Rightarrow> nat \<Rightarrow> nat \<Rightarrow> GstVmbSrc \<Rightarrow> (VmbError_t \<times> bool) \<times> GstVmbSrc" where
  "announce_frame dev payload_size i s =
     (let s1 = set_frame i ((frame_buffers s i)\<lparr>bufferSize := payload_size,
                               context0 := filled_frame_queue s\<rparr>) s
      in case vmb dev (VmbFrameAnnounce i) s1 of (r, s2) \<Rightarrow>
           if rc r \<noteq> VmbErrorSuccess
           then (case vmb dev (libc_free (buffer (frame_buffers s2 i))) s2 of (rf, s3) \<Rightarrow>
                   ((rc r, True), set_frame i zero_frame s3))
           else if buffer (frame_buffers s2 i) = 0
                then ((rc r, False), set_frame i ((frame_buffers s2 i)\<lparr>buffer := nat (ival r)\<rparr>) s2)
                else ((rc r, False), s2))"

definition alloc_and_announce_frame ::
  "device \<Rightarrow> nat \<Rightarrow> nat \<Rightarrow> GstVmbSrc \<Rightarrow> (VmbError_t \<times> bool) \<times> GstVmbSrc" where
  "alloc_and_announce_frame dev payload_size i s =
     (if allocation_mode s = GST_VMBSRC_ALLOCATION_MODE_ANNOUNCE_FRAME
      then (case vmb dev (VmbFeatureIntGet ''StreamBufferAlignment'') s of (ra, s1) \<Rightarrow>
            case vmb dev (VmbAlignedAlloc (if rc ra = VmbErrorSuccess then ival ra else 1)
                            payload_size) s1 of (rb, s2) \<Rightarrow>
              let s3 = set_frame i ((frame_buffers s2 i)\<lparr>buffer := nat (ival rb)\<rparr>) s2
              in if nat (ival rb) = 0 then ((VmbErrorResources, True), s3)
                 else announce_frame dev payload_size i s3)
      else announce_frame dev payload_size i
             (set_frame i ((frame_buffers s i)\<lparr>buffer := 0\<rparr>) s))"

fun alloc_and_announce_loop ::
  "device \<Rightarrow> nat \<Rightarrow> nat list \<Rightarrow> VmbError_t \<times> GstVmbSrc \<Rightarrow> VmbError_t \<times> GstVmbSrc" where
  "alloc_and_announce_loop dev payload_size [] p = p"
| "alloc_and_announce_loop dev payload_size (i # is) p =
     (case alloc_and_announce_frame dev payload_size i (snd p) of ((result, brk), s1) \<Rightarrow>
        if brk then (result, s1)
        else alloc_and_announce_loop dev payload_size is (result, s1))"

definition alloc_and_announce_buffers ::
  "device \<Rightarrow> nat \<Rightarrow> GstVmbSrc \<Rightarrow> VmbError_t \<times> GstVmbSrc" where
  "alloc_and_announce_buffers dev N s =
     (case vmb dev VmbPayloadSizeGet s of (rp, s1) \<Rightarrow>
        if rc rp = VmbErrorSuccess
        then alloc_and_announce_loop dev (nat (ival rp)) [0..<N] (rc rp, s1)
        else (rc rp, s1))"

definition revoke_frame :: "device \<Rightarrow> nat \<Rightarrow> GstVmbSrc \<Rightarrow> GstVmbSrc" where
  "revoke_frame dev i s =
     (if buffer (frame_buffers s i) \<noteq> 0
      then (case vmb dev (VmbFrameRevoke i) s of (r, s1) \<Rightarrow>
              let s2 = (if allocation_mode s1 = GST_VMBSRC_ALLOCATION_MODE_ANNOUNCE_FRAME
                        then snd (vmb dev (VmbAlignedFree (buffer (frame_buffers s1 i))) s1)
                        else s1)
              in set_frame i zero_frame s2)
      else s)"

fun revoke_loop :: "device \<Rightarrow> nat list \<Rightarrow> GstVmbSrc \<Rightarrow> GstVmbSrc" where
  "revoke_loop dev [] s = s"
| "revoke_loop dev (i # is) s = revoke_loop dev is (revoke_frame dev i s)"

definition revoke_and_free_buffers :: "device \<Rightarrow> nat \<Rightarrow> GstVmbSrc \<Rightarrow> GstVmbSrc" where
  "revoke_and_free_buffers dev N s = revoke_loop dev [0..<N] s"

subsection \<open>Starting and stopping the acquisition\<close>

text \<open>
  The do-while around VmbFeatureCommandIsDone: it is left when the query
  fails or when the flag comes back set. A device that never does either
  keeps the loop running; the function then has no result (None).
\<close>

partial_function (option) wait_command_done ::
  "device \<Rightarrow> string \<Rightarrow> GstVmbSrc \<Rightarrow> GstVmbSrc option" where
  "wait_command_done dev name s =
     (case vmb dev (VmbFeatureCommandIsDone name) s of (r, s1) \<Rightarrow>
        if rc r \<noteq> VmbErrorSuccess then Some s1
        else if ival r = 0 then wait_command_done dev name s1
        else Some s1)"

fun queue_frames_loop ::
  "device \<Rightarrow> nat list \<Rightarrow> VmbError_t \<times> GstVmbSrc \<Rightarrow> VmbError_t \<times> GstVmbSrc" where
  "queue_frames_loop dev [] p = p"
| "queue_frames_loop dev (i # is) p =
     (case vmb dev (VmbCaptureFrameQueue i) (snd p) of (r, s1) \<Rightarrow>
        if rc r \<noteq> VmbErrorSuccess then (rc r, s1)
        else queue_frames_loop dev is (rc r, s1))"

definition start_image_acquisition ::
  "device \<Rightarrow> nat \<Rightarrow> GstVmbSrc \<Rightarrow> (VmbError_t \<times> GstVmbSrc) option" where
  "start_image_acquisition dev N s =
     (case vmb dev VmbCaptureStart s of (r0, s1) \<Rightarrow>
        if rc r0 = VmbErrorSuccess
        then (case queue_frames_loop dev [0..<N] (rc r0, s1) of (result, s2) \<Rightarrow>
                if result = VmbErrorSuccess
                then (case vmb dev (VmbFeatureCommandRun ''AcquisitionStart'') s2 of (r, s3) \<Rightarrow>
                      (case wait_command_done dev ''AcquisitionStart'' s3 of
                         None \<Rightarrow> None
                       | Some s4 \<Rightarrow> Some (rc r, s4\<lparr>is_acquiring := True\<rparr>)))
                else Some (result, s2))
        else Some (rc r0, s1))"

definition stop_image_acquisition ::
  "device \<Rightarrow> GstVmbSrc \<Rightarrow> (VmbError_t \<times> GstVmbSrc) option" where
  "stop_image_acquisition dev s =
     (case vmb dev (VmbFeatureCommandRun ''AcquisitionStop'') s of (r, s1) \<Rightarrow>
        (case wait_command_done dev ''AcquisitionStop'' s1 of
           None \<Rightarrow> None
         | Some s2 \<Rightarrow>
             (case vmb dev VmbCaptureEnd (s2\<lparr>is_acquiring := False\<rparr>) of (re, s3) \<Rightarrow>
              case vmb dev VmbCaptureQueueFlush s3 of (rq, s4) \<Rightarrow>
                Some (rc re, s4))))"

subsection \<open>The queue of filled frames and the frame callback\<close>

text \<open>
  g_async_queue_new takes the memory of the queue from the allocator, at the
  address \<open>queue_addr\<close> gives for it; that may be an address released
  before, so the address of a queue just released by g_async_queue_unref can
  come back as the address of the next queue. The new queue is empty. A
  released object keeps what the store holds at its address, and a push
  through a stale pointer writes to that address, whatever lives there.
\<close>

definition g_async_queue_new :: "GstVmbSrc \<Rightarrow> nat \<times> GstVmbSrc" where
  "g_async_queue_new s =
     (queue_addr s (queue_count s),
      s\<lparr>queue_store := (queue_store s)(queue_addr s (queue_count s) := []),
        queue_live := insert (queue_addr s (queue_count s)) (queue_live s),
        queue_count := Suc (queue_count s)\<rparr>)"

definition g_async_queue_unref :: "nat \<Rightarrow> GstVmbSrc \<Rightarrow> GstVmbSrc" where
  "g_async_queue_unref q s = s\<lparr>queue_live := queue_live s - {q}\<rparr>"

definition g_async_queue_push :: "nat \<Rightarrow> nat \<Rightarrow> GstVmbSrc \<Rightarrow> GstVmbSrc" where
  "g_async_queue_push q x s = s\<lparr>queue_store := (queue_store s)(q := queue_store s q @ [x])\<rparr>"

definition g_async_queue_timeout_pop :: "GstVmbSrc \<Rightarrow> nat option \<times> GstVmbSrc" where
  "g_async_queue_timeout_pop s =
     (case filled_frame_queue s of
        None \<Rightarrow> (None, s)
      | Some q \<Rightarrow>
          (case queue_store s q of
             [] \<Rightarrow> (None, s)
           | x # xs \<Rightarrow> (Some x, s\<lparr>queue_store := (queue_store s)(q := xs)\<rparr>)))"

definition vimbax_frame_callback :: "nat \<Rightarrow> GstVmbSrc \<Rightarrow> GstVmbSrc" where
  "vimbax_frame_callback i s =
     (case context0 (frame_buffers s i) of
        None \<Rightarrow> s
      | Some q \<Rightarrow> g_async_queue_push q i s)"

subsection \<open>gst_vmbsrc_set_caps\<close>

text \<open>
  Of the caps only the format string of the first structure is read, and
  whether gst_video_info_from_caps accepts them. supported_formats holds the
  pairs (vimbax_format_name, gst_format_name).
\<close>

record GstCaps =
  caps_format :: string
  caps_video_info_ok :: bool

fun find_vimbax_format :: "(string \<times> string) list \<Rightarrow> string \<Rightarrow> string option" where
  "find_vimbax_format [] gst_format = None"
| "find_vimbax_format ((vimbax_name, gst_name) # fs) gst_format =
     (if gst_format = gst_name then Some vimbax_name else find_vimbax_format fs gst_format)"

definition replace_filled_frame_queue :: "GstVmbSrc \<Rightarrow> GstVmbSrc" where
  "replace_filled_frame_queue s =
     (case filled_frame_queue s of
        None \<Rightarrow> s
      | Some q \<Rightarrow>
          (case g_async_queue_new (g_async_queue_unref q s) of (q', s1) \<Rightarrow>
             s1\<lparr>filled_frame_queue := Some q'\<rparr>))"

definition realloc_needed :: "GstVmbSrc \<Rightarrow> vmb_answer \<Rightarrow> bool" where
  "realloc_needed s rp =
     (bufferSize (frame_buffers s 0) < nat (ival rp) \<or> rc rp \<noteq> VmbErrorSuccess)"

text \<open>
  The end of gst_vmbsrc_set_caps, from the read of the payload size on: the
  buffers are revoked and allocated anew when the first descriptor is
  smaller than the payload or the payload size could not be read
  (\<open>set_caps_buffers\<close>), then the acquisition is started again if all went
  well, and the result is that of gst_video_info_from_caps or FALSE
  (\<open>set_caps_resume\<close>).
\<close>

definition set_caps_resume ::
  "device \<Rightarrow> nat \<Rightarrow> GstCaps \<Rightarrow> VmbError_t \<times> GstVmbSrc \<Rightarrow> (bool \<times> GstVmbSrc) option" where
  "set_caps_resume dev N caps p =
     (case (if fst p = VmbErrorSuccess
            then start_image_acquisition dev N (snd p)
            else Some p) of
        None \<Rightarrow> None
      | Some (result, s3) \<Rightarrow>
          Some (if result = VmbErrorSuccess then caps_video_info_ok caps else False, s3))"

definition set_caps_buffers ::
  "device \<Rightarrow> nat \<Rightarrow> GstCaps \<Rightarrow> GstVmbSrc \<Rightarrow> (bool \<times> GstVmbSrc) option" where
  "set_caps_buffers dev N caps s =
     (case vmb dev VmbPayloadSizeGet s of (rp, s1) \<Rightarrow>
        set_caps_resume dev N caps
          (if realloc_needed s1 rp
           then alloc_and_announce_buffers dev N (revoke_and_free_buffers dev N s1)
           else (rc rp, s1)))"

definition gst_vmbsrc_set_caps ::
  "device \<Rightarrow> nat \<Rightarrow> GstCaps \<Rightarrow> GstVmbSrc \<Rightarrow> (bool \<times> GstVmbSrc) option" where
  "gst_vmbsrc_set_caps dev N caps s =
     (case find_vimbax_format (supported_formats s) (caps_format caps) of
        None \<Rightarrow> Some (False, s)
      | Some vimbax_format \<Rightarrow>
          (case stop_image_acquisition dev s of
             None \<Rightarrow> None
           | Some (r0, s1) \<Rightarrow>
               (case vmb dev (VmbFeatureEnumSet ''PixelFormat'' vimbax_format)
                       (replace_filled_frame_queue s1) of (rf, s2) \<Rightarrow>
                  if rc rf \<noteq> VmbErrorSuccess then Some (False, s2)
                  else set_caps_buffers dev N caps s2)))"

subsection \<open>gst_vmbsrc_create\<close>

text \<open>
  The callback runs on a thread of the library while create polls. One tick
  is one turn of the inner loop: the frames the device completed since the
  last turn (descriptor index, receive status, frame id; for each the device
  writes the descriptor and calls vimbax_frame_callback), then the pop with
  its timeout, then the element state that gst_element_get_state reports.
  The list of ticks is the schedule; when it ends while create still waits,
  there is no result (None). Of the output buffer the model keeps the
  descriptor it was copied from, the copied size, status and frame id, and
  the two offsets; clock, strides and pixel data are left out.
\<close>

record tick =
  delivered :: "(nat \<times> VmbFrameStatus_t \<times> nat) list"
  element_state :: GstState

record GstBuffer =
  buf_frame :: nat
  buf_size :: nat
  buf_status :: VmbFrameStatus_t
  buf_frameID :: nat
  buf_offset :: nat
  buf_offset_end :: nat

datatype GstFlowReturn = GST_FLOW_OK GstBuffer | GST_FLOW_FLUSHING

fun device_completes :: "(nat \<times> VmbFrameStatus_t \<times> nat) list \<Rightarrow> GstVmbSrc \<Rightarrow> GstVmbSrc" where
  "device_completes [] s = s"
| "device_completes ((i, st, fid) # ds) s =
     device_completes ds
       (vimbax_frame_callback i
          (set_frame i ((frame_buffers s i)\<lparr>receiveStatus := st, frameID := fid\<rparr>) s))"

definition submit_frame :: "device \<Rightarrow> nat \<Rightarrow> GstVmbSrc \<Rightarrow> GstFlowReturn \<times> GstVmbSrc" where
  "submit_frame dev i s =
     (case vmb dev (VmbCaptureFrameQueue i) s of (r, s1) \<Rightarrow>
        (GST_FLOW_OK \<lparr>buf_frame = i,
                      buf_size = bufferSize (frame_buffers s i),
                      buf_status = receiveStatus (frame_buffers s i),
                      buf_frameID = frameID (frame_buffers s i),
                      buf_offset = num_frames_pushed s1,
                      buf_offset_end = Suc (num_frames_pushed s1)\<rparr>,
         s1\<lparr>num_frames_pushed := Suc (num_frames_pushed s1)\<rparr>))"

fun gst_vmbsrc_create ::
  "device \<Rightarrow> tick list \<Rightarrow> GstVmbSrc \<Rightarrow> (GstFlowReturn \<times> GstVmbSrc) option" where
  "gst_vmbsrc_create dev [] s = None"
| "gst_vmbsrc_create dev (t # ts) s =
     (case g_async_queue_timeout_pop (device_completes (delivered t) s) of (frame, s1) \<Rightarrow>
        if element_state t \<noteq> GST_STATE_PLAYING then Some (GST_FLOW_FLUSHING, s1)
        else (case frame of
                None \<Rightarrow> gst_vmbsrc_create dev ts s1
              | Some i \<Rightarrow>
                  if receiveStatus (frame_buffers s1 i) = VmbFrameStatusIncomplete
                  then (if incomplete_frame_handling s1 = GST_VMBSRC_INCOMPLETE_FRAME_HANDLING_SUBMIT
                        then Some (submit_frame dev i s1)
                        else gst_vmbsrc_create dev ts
                               (snd (vmb dev (VmbCaptureFrameQueue i) s1)))
                  else Some (submit_frame dev i s1)))"

subsection \<open>set_roi\<close>

definition INT_MAX :: int where
  "INT_MAX = 2147483647"











subsection \<open>Elements and devices for the worked examples\<close>

text \<open>
  \<open>src_init\<close> is the element as gst_vmbsrc_init leaves it (the defaults of
  the properties, zeroed descriptors, no queue), with an allocator that
  gives the n-th queue the address n + 1 and so never gives an address
  twice; \<open>dev_ok\<close> answers every call with VmbErrorSuccess and the value 1.
\<close>

definition no_frames :: "nat \<Rightarrow> VmbFrame_t" where
  "no_frames i = zero_frame"

definition no_queues :: "nat \<Rightarrow> nat list" where
  "no_queues q = []"

definition src_init :: GstVmbSrc where
  "src_init = \<lparr>prop_offsetx = 0, prop_offsety = 0,
     prop_width = INT_MAX, prop_height = INT_MAX,
     prop_triggerselector = GST_VMBSRC_TRIGGERSELECTOR_UNCHANGED,
     prop_triggermode = GST_VMBSRC_TRIGGERMODE_UNCHANGED,
     prop_triggersource = GST_VMBSRC_TRIGGERSOURCE_UNCHANGED,
     prop_triggeractivation = GST_VMBSRC_TRIGGERACTIVATION_UNCHANGED,
     incomplete_frame_handling = GST_VMBSRC_INCOMPLETE_FRAME_HANDLING_DROP,
     allocation_mode = GST_VMBSRC_ALLOCATION_MODE_ANNOUNCE_FRAME,
     supported_formats = [(''Mono8'', ''GRAY8''), (''RGB8'', ''RGB'')],
     is_acquiring = False,
     frame_buffers = no_frames,
     filled_frame_queue = None,
     queue_store = no_queues,
     queue_live = {},
     queue_addr = Suc,
     queue_count = 0,
     num_frames_pushed = 0,
     calls = []\<rparr>"

definition answer :: "VmbError_t \<Rightarrow> int \<Rightarrow> int \<Rightarrow> vmb_answer" where
  "answer e a b = \<lparr>rc = e, ival = a, ival2 = b\<rparr>"

definition dev_ok :: device where
  "dev_ok h c = answer VmbErrorSuccess 1 0"

definition src_trigger :: GstVmbSrc where
  "src_trigger = src_init\<lparr>
     prop_triggerselector := GST_VMBSRC_TRIGGERSELECTOR_FRAME_START,
     prop_triggeractivation := GST_VMBSRC_TRIGGERACTIVATION_RISING_EDGE,
     prop_triggersource := GST_VMBSRC_TRIGGERSOURCE_LINE0,
     prop_triggermode := GST_VMBSRC_TRIGGERMODE_ON\<rparr>"

text \<open>
  The calls revoke_and_free_buffers makes for descriptor \<open>i\<close> of the pool
  in \<open>s\<close>, and the kinds of call that give memory back or take memory.
\<close>

definition revoke_calls :: "GstVmbSrc \<Rightarrow> nat \<Rightarrow> vmb_call list" where
  "revoke_calls s i =
     (if buffer (frame_buffers s i) = 0 then []
      else if allocation_mode s = GST_VMBSRC_ALLOCATION_MODE_ANNOUNCE_FRAME
           then [VmbFrameRevoke i, VmbAlignedFree (buffer (frame_buffers s i))]
           else [VmbFrameRevoke i])"

fun is_release :: "vmb_call \<Rightarrow> bool" where
  "is_release (VmbAlignedFree p) = True"
| "is_release (libc_free p) = True"
| "is_release (VmbFrameRevoke i) = True"
| "is_release c = False"

fun is_alloc :: "vmb_call \<Rightarrow> bool" where
  "is_alloc (VmbAlignedAlloc a n) = True"
| "is_alloc c = False"

text \<open>
  A pool with memory in descriptor 0 only; a device whose transport layer
  takes a descriptor without memory and leaves its buffer field alone; the
  pool that alloc_and_announce_buffers builds on that device when the
  transport layer is to allocate.
\<close>

definition src_pool :: GstVmbSrc where
  "src_pool = src_init\<lparr>frame_buffers :=
       no_frames(0 := \<lparr>buffer = 1000, bufferSize = 4096, context0 = None,
                      receiveStatus = VmbFrameStatusComplete, frameID = 0\<rparr>)\<rparr>"

fun dev_tl :: device where
  "dev_tl h VmbPayloadSizeGet = answer VmbErrorSuccess 4096 0"
| "dev_tl h c = answer VmbErrorSuccess 0 0"

definition src_tl :: GstVmbSrc where
  "src_tl = src_init\<lparr>allocation_mode := GST_VMBSRC_ALLOCATION_MODE_ALLOC_AND_ANNOUNCE_FRAME\<rparr>"

definition src_tl_announced :: GstVmbSrc where
  "src_tl_announced = snd (alloc_and_announce_buffers dev_tl 1 src_tl)"

text \<open>
  A device on which the first VmbAlignedAlloc of a history gives memory at
  address 1000 and every later one fails.
\<close>

fun dev_alloc_fails :: device where
  "dev_alloc_fails h VmbPayloadSizeGet = answer VmbErrorSuccess 4096 0"
| "dev_alloc_fails h (VmbAlignedAlloc a n) =
     (if filter is_alloc h = [] then answer VmbErrorSuccess 1000 0
      else answer VmbErrorSuccess 0 0)"
| "dev_alloc_fails h c = answer VmbErrorSuccess 1 0"

text \<open>
  An element that streams: every descriptor holds memory and routes to the
  queue at address 1, which is the element's queue of filled frames.
  \<open>src_one_filled\<close> has descriptor 0 waiting in that queue.
\<close>

definition streaming_frames :: "nat \<Rightarrow> VmbFrame_t" where
  "streaming_frames i = \<lparr>buffer = 1000 + i, bufferSize = 4096, context0 = Some 1,
     receiveStatus = VmbFrameStatusComplete, frameID = 0\<rparr>"

definition src_streaming :: GstVmbSrc where
  "src_streaming = src_init\<lparr>is_acquiring := True, frame_buffers := streaming_frames,
     filled_frame_queue := Some 1, queue_live := {1}, queue_count := 1\<rparr>"

definition src_one_filled :: GstVmbSrc where
  "src_one_filled = src_streaming\<lparr>queue_store := no_queues(1 := [0])\<rparr>"




definition tick_paused :: tick where
  "tick_paused = \<lparr>delivered = [], element_state = GST_STATE_PAUSED\<rparr>"

text \<open>
  Three devices for the acquisition commands: one that refuses to run
  AcquisitionStop, one whose VmbFeatureCommandIsDone fails, and one that
  never reports a command as done.
\<close>

fun dev_stop_refused :: device where
  "dev_stop_refused h (VmbFeatureCommandRun n) =
     (if n = ''AcquisitionStop'' then answer (VmbErrorOther (- 6)) 0 0
      else answer VmbErrorSuccess 1 0)"
| "dev_stop_refused h c = answer VmbErrorSuccess 1 0"

fun dev_poll_fails :: device where
  "dev_poll_fails h (VmbFeatureCommandIsDone n) = answer (VmbErrorOther (- 1)) 0 0"
| "dev_poll_fails h c = answer VmbErrorSuccess 1 0"

fun dev_never_done :: device where
  "dev_never_done h (VmbFeatureCommandIsDone n) = answer VmbErrorSuccess 0 0"
| "dev_never_done h c = answer VmbErrorSuccess 1 0"

text \<open>What a caller sees of start and stop: the error code, and the calls made.\<close>

definition code_and_calls ::
  "(VmbError_t \<times> GstVmbSrc) option \<Rightarrow> (VmbError_t \<times> vmb_call list) option" where
  "code_and_calls x = map_option (\<lambda>p. (fst p, calls (snd p))) x"

text \<open>
  The calls that start_image_acquisition may make, and the calls that
  touch the pool.
\<close>

fun is_acquisition_call :: "vmb_call \<Rightarrow> bool" where
  "is_acquisition_call VmbCaptureStart = True"
| "is_acquisition_call (VmbCaptureFrameQueue i) = True"
| "is_acquisition_call (VmbFeatureCommandRun n) = True"
| "is_acquisition_call (VmbFeatureCommandIsDone n) = True"
| "is_acquisition_call VmbCaptureEnd = True"
| "is_acquisition_call VmbCaptureQueueFlush = True"
| "is_acquisition_call c = False"

fun is_revoke :: "vmb_call \<Rightarrow> bool" where
  "is_revoke (VmbFrameRevoke i) = True"
| "is_revoke c = False"

fun is_announce :: "vmb_call \<Rightarrow> bool" where
  "is_announce (VmbFrameAnnounce i) = True"
| "is_announce c = False"

text \<open>The queue side of an element, and where each descriptor routes its frames.\<close>

definition queues_of ::
  "GstVmbSrc \<Rightarrow> nat option \<times> (nat \<Rightarrow> nat list) \<times> nat set \<times> (nat \<Rightarrow> nat) \<times> nat" where
  "queues_of s =
     (filled_frame_queue s, queue_store s, queue_live s, queue_addr s, queue_count s)"

definition routes_of :: "GstVmbSrc \<Rightarrow> nat \<Rightarrow> nat option" where
  "routes_of s i = context0 (frame_buffers s i)"

text \<open>
  Two cameras for the negotiation: both give memory at address 2000 and
  accept every call; the payload size is 4096 on the first and 8192 on the
  second. \<open>caps_gray\<close> asks for GRAY8.
\<close>

fun dev_payload_4096 :: device where
  "dev_payload_4096 h VmbPayloadSizeGet = answer VmbErrorSuccess 4096 0"
| "dev_payload_4096 h (VmbAlignedAlloc a n) = answer VmbErrorSuccess 2000 0"
| "dev_payload_4096 h c = answer VmbErrorSuccess 1 0"

fun dev_payload_8192 :: device where
  "dev_payload_8192 h VmbPayloadSizeGet = answer VmbErrorSuccess 8192 0"
| "dev_payload_8192 h (VmbAlignedAlloc a n) = answer VmbErrorSuccess 2000 0"
| "dev_payload_8192 h c = answer VmbErrorSuccess 1 0"

definition caps_gray :: GstCaps where
  "caps_gray = \<lparr>caps_format = ''GRAY8'', caps_video_info_ok = True\<rparr>"

text \<open>
  \<open>src_started\<close> is the element with the queue gst_vmbsrc_start has made, at
  address 1, and no frame allocated yet; on \<open>src_started_reuse\<close> the
  allocator gives every queue the address 1, so that a queue made right
  after the release of another takes its place. \<open>negotiated\<close> is the tail of
  a first gst_vmbsrc_set_caps on the camera with payload size 4096: one
  frame is allocated and announced, and the acquisition is started.
\<close>

definition src_started :: GstVmbSrc where
  "src_started = src_init\<lparr>filled_frame_queue := Some 1, queue_live := {1}, queue_count := 1\<rparr>"

definition src_started_reuse :: GstVmbSrc where
  "src_started_reuse = src_started\<lparr>queue_addr := (\<lambda>n. 1)\<rparr>"

definition negotiated :: "GstVmbSrc \<Rightarrow> GstVmbSrc" where
  "negotiated t =
     snd (the (start_image_acquisition dev_payload_4096 1
                 (snd (alloc_and_announce_buffers dev_payload_4096 1 t))))"




section \<open>Properties\<close>

subsection \<open>Trigger settings\<close>


lemma calls_vmb: "calls (snd (vmb dev c s)) = calls s @ [c]"
  by (simp add: vmb_def)

lemma vmb_frame: "snd (vmb dev c s) = s\<lparr>calls := calls s @ [c]\<rparr>"
  by (simp add: vmb_def)

lemma calls_enum_is_available_loop:
  "\<exists>xs. calls (enum_is_available_loop dev n is s) = calls s @ xs \<and> filter is_set xs = []"
proof (induction "is" arbitrary: s)
  case Nil
  then show ?case by simp
next
  case (Cons i "is")
  obtain xs where "calls (enum_is_available_loop dev n is (snd (vmb dev (VmbFeatureEnumIsAvailable n i) s)))
      = calls (snd (vmb dev (VmbFeatureEnumIsAvailable n i) s)) @ xs" and "filter is_set xs = []"
    using Cons.IH by blast
  then show ?case by (simp add: calls_vmb)
qed

lemma calls_log_available_enum_entries:
  "\<exists>xs. calls (log_available_enum_entries dev n s) = calls s @ xs \<and> filter is_set xs = []"
proof -
  let ?s2 = "snd (vmb dev (VmbFeatureEnumRangeQuery n) (snd (vmb dev (VmbFeatureEnumRangeQuery n) s)))"
  let ?k = "nat (ival (fst (vmb dev (VmbFeatureEnumRangeQuery n) s)))"
  obtain xs where "calls (enum_is_available_loop dev n [0..<?k] ?s2) = calls ?s2 @ xs" "filter is_set xs = []"
    using calls_enum_is_available_loop by blast
  then show ?thesis
    by (simp add: log_available_enum_entries_def calls_vmb split_beta)
qed

lemma calls_set_trigger_feature:
  "\<exists>xs. calls (snd (set_trigger_feature dev n u nick lg (r, s))) = calls s @ xs \<and>
        filter is_set xs = (if u then [] else [VmbFeatureEnumSet n nick])"
proof (cases u)
  case True
  then show ?thesis by (simp add: set_trigger_feature_def)
next
  case False
  let ?s1 = "snd (vmb dev (VmbFeatureEnumSet n nick) s)"
  obtain xs where "calls (log_available_enum_entries dev n ?s1) = calls ?s1 @ xs" "filter is_set xs = []"
    using calls_log_available_enum_entries by blast
  with False show ?thesis
    by (simp add: set_trigger_feature_def calls_vmb split_beta)
qed

lemma calls_set_trigger_feature':
  "\<exists>xs. calls (snd (set_trigger_feature dev n u nick lg p)) = calls (snd p) @ xs \<and>
        filter is_set xs = (if u then [] else [VmbFeatureEnumSet n nick])"
  using calls_set_trigger_feature [of dev n u nick lg "fst p" "snd p"] by simp

lemma set_trigger_feature_mono:
  "k \<le> length (calls (snd p)) \<Longrightarrow> k \<le> length (calls (snd (set_trigger_feature dev n u nick lg p)))"
proof -
  assume k: "k \<le> length (calls (snd p))"
  obtain xs where "calls (snd (set_trigger_feature dev n u nick lg p)) = calls (snd p) @ xs"
    using calls_set_trigger_feature' by blast
  with k show ?thesis by simp
qed

lemma set_trigger_feature_sets:
  "k \<le> length (calls (snd p)) \<Longrightarrow>
   filter is_set (drop k (calls (snd (set_trigger_feature dev n u nick lg p)))) =
   filter is_set (drop k (calls (snd p))) @ (if u then [] else [VmbFeatureEnumSet n nick])"
proof -
  assume k: "k \<le> length (calls (snd p))"
  obtain xs where "calls (snd (set_trigger_feature dev n u nick lg p)) = calls (snd p) @ xs"
    and "filter is_set xs = (if u then [] else [VmbFeatureEnumSet n nick])"
    using calls_set_trigger_feature' by blast
  with k show ?thesis by simp
qed

text \<open>
  C5. apply_trigger_settings issues its feature sets in the order
  TriggerSelector, TriggerActivation, TriggerSource, TriggerMode: the sets
  among the calls it adds are, in this order, one VmbFeatureEnumSet for each
  of the four properties that is not the UNCHANGED entry, and none for a
  property that is. With all four explicit there are exactly four sets.
\<close>

theorem apply_trigger_settings_order:
  "filter is_set (new_calls s (snd (apply_trigger_settings dev s))) =
       (if prop_triggerselector s = GST_VMBSRC_TRIGGERSELECTOR_UNCHANGED then []
        else [VmbFeatureEnumSet ''TriggerSelector'' (triggerselector_nick (prop_triggerselector s))]) @
       (if prop_triggeractivation s = GST_VMBSRC_TRIGGERACTIVATION_UNCHANGED then []
        else [VmbFeatureEnumSet ''TriggerActivation'' (triggeractivation_nick (prop_triggeractivation s))]) @
       (if prop_triggersource s = GST_VMBSRC_TRIGGERSOURCE_UNCHANGED then []
        else [VmbFeatureEnumSet ''TriggerSource'' (triggersource_nick (prop_triggersource s))]) @
       (if prop_triggermode s = GST_VMBSRC_TRIGGERMODE_UNCHANGED then []
        else [VmbFeatureEnumSet ''TriggerMode'' (triggermode_nick (prop_triggermode s))])"
  unfolding apply_trigger_settings_def Let_def new_calls_def
  by (simp only: set_trigger_feature_sets set_trigger_feature_mono snd_conv order_refl
        drop_all filter.simps append_Nil append_assoc)

theorem apply_trigger_settings_order_witness:
  "filter is_set (new_calls src_trigger (snd (apply_trigger_settings dev_ok src_trigger))) =
     [VmbFeatureEnumSet ''TriggerSelector'' ''FrameStart'',
      VmbFeatureEnumSet ''TriggerActivation'' ''RisingEdge'',
      VmbFeatureEnumSet ''TriggerSource'' ''Line0'',
      VmbFeatureEnumSet ''TriggerMode'' ''On'']"
  using apply_trigger_settings_order [of src_trigger dev_ok]
  by (simp add: src_trigger_def src_init_def)

subsection \<open>Revoking the frame buffers\<close>

lemma buffer_zero_frame: "buffer zero_frame = 0"
  by (simp add: zero_frame_def)

lemma revoke_frame_null: "buffer (frame_buffers s i) = 0 \<Longrightarrow> revoke_frame dev i s = s"
  by (simp add: revoke_frame_def)

lemma frame_buffers_revoke_frame:
  "frame_buffers (revoke_frame dev i s) =
     (if buffer (frame_buffers s i) \<noteq> 0 then (frame_buffers s)(i := zero_frame) else frame_buffers s)"
  by (simp add: revoke_frame_def vmb_def set_frame_def Let_def split_beta)

lemma allocation_mode_revoke_frame:
  "allocation_mode (revoke_frame dev i s) = allocation_mode s"
  by (simp add: revoke_frame_def vmb_def set_frame_def Let_def split_beta)

lemma calls_revoke_frame:
  "calls (revoke_frame dev i s) = calls s @ revoke_calls s i"
  by (simp add: revoke_frame_def revoke_calls_def vmb_def set_frame_def Let_def split_beta)

lemma revoke_calls_other:
  "j \<noteq> i \<Longrightarrow> revoke_calls (revoke_frame dev i s) j = revoke_calls s j"
  by (simp add: revoke_calls_def frame_buffers_revoke_frame allocation_mode_revoke_frame)

lemma revoke_loop_null:
  "\<forall>i \<in> set is. buffer (frame_buffers s i) = 0 \<Longrightarrow> revoke_loop dev is s = s"
  by (induction "is" arbitrary: s) (simp_all add: revoke_frame_null)

lemma frame_buffers_revoke_loop:
  "frame_buffers (revoke_loop dev is s) j =
     (if j \<in> set is \<and> buffer (frame_buffers s j) \<noteq> 0 then zero_frame else frame_buffers s j)"
  by (induction "is" arbitrary: s)
     (auto simp: frame_buffers_revoke_frame buffer_zero_frame)

lemma calls_revoke_loop:
  "distinct is \<Longrightarrow>
   calls (revoke_loop dev is s) = calls s @ concat (map (revoke_calls s) is)"
proof (induction "is" arbitrary: s)
  case Nil
  then show ?case by simp
next
  case (Cons i "is")
  have "map (revoke_calls (revoke_frame dev i s)) is = map (revoke_calls s) is"
  proof (rule map_cong [OF refl])
    fix j assume "j \<in> set is"
    with Cons.prems have "j \<noteq> i" by auto
    then show "revoke_calls (revoke_frame dev i s) j = revoke_calls s j"
      by (rule revoke_calls_other)
  qed
  then have m: "concat (map (revoke_calls (revoke_frame dev i s)) is) = concat (map (revoke_calls s) is)"
    by (rule arg_cong)
  have "calls (revoke_loop dev (i # is) s) =
        calls (revoke_frame dev i s) @ concat (map (revoke_calls (revoke_frame dev i s)) is)"
    using Cons.IH Cons.prems by simp
  then show ?case unfolding m by (simp add: calls_revoke_frame)
qed

text \<open>
  C9, as amended. revoke_and_free_buffers always returns, and a second call
  right after the first changes nothing and makes no call. For every
  descriptor that holds a buffer pointer it calls VmbFrameRevoke, then
  VmbAlignedFree when the element allocated the memory, and clears the
  descriptor; a descriptor whose buffer pointer is NULL is skipped: not
  revoked and not cleared. So all N descriptors are zeroed afterwards
  whenever every descriptor without a buffer pointer was zeroed before, and
  a pool that was never allocated is left as it is.
\<close>

theorem revoke_and_free_buffers_idempotent:
  "revoke_and_free_buffers dev N (revoke_and_free_buffers dev N s) = revoke_and_free_buffers dev N s
   \<and> calls (revoke_and_free_buffers dev N s) = calls s @ concat (map (revoke_calls s) [0..<N])
   \<and> (\<forall>i<N. frame_buffers (revoke_and_free_buffers dev N s) i =
          (if buffer (frame_buffers s i) \<noteq> 0 then zero_frame else frame_buffers s i))
   \<and> ((\<forall>i<N. buffer (frame_buffers s i) = 0 \<longrightarrow> frame_buffers s i = zero_frame) \<longrightarrow>
        (\<forall>i<N. frame_buffers (revoke_and_free_buffers dev N s) i = zero_frame))
   \<and> ((\<forall>i<N. frame_buffers s i = zero_frame) \<longrightarrow> revoke_and_free_buffers dev N s = s)"
proof (intro conjI)
  show "revoke_and_free_buffers dev N (revoke_and_free_buffers dev N s) = revoke_and_free_buffers dev N s"
    unfolding revoke_and_free_buffers_def
    by (rule revoke_loop_null) (simp add: frame_buffers_revoke_loop buffer_zero_frame)
  show "calls (revoke_and_free_buffers dev N s) = calls s @ concat (map (revoke_calls s) [0..<N])"
    by (simp add: revoke_and_free_buffers_def calls_revoke_loop)
  show fb: "\<forall>i<N. frame_buffers (revoke_and_free_buffers dev N s) i =
          (if buffer (frame_buffers s i) \<noteq> 0 then zero_frame else frame_buffers s i)"
    by (simp add: revoke_and_free_buffers_def frame_buffers_revoke_loop)
  show "(\<forall>i<N. buffer (frame_buffers s i) = 0 \<longrightarrow> frame_buffers s i = zero_frame) \<longrightarrow>
        (\<forall>i<N. frame_buffers (revoke_and_free_buffers dev N s) i = zero_frame)"
    using fb by simp
  show "(\<forall>i<N. frame_buffers s i = zero_frame) \<longrightarrow> revoke_and_free_buffers dev N s = s"
    unfolding revoke_and_free_buffers_def
    by (auto intro!: revoke_loop_null simp: buffer_zero_frame)
qed

theorem revoke_and_free_buffers_idempotent_witness:
  "frame_buffers (revoke_and_free_buffers dev_ok 2 src_pool) 0 = zero_frame
   \<and> frame_buffers (revoke_and_free_buffers dev_ok 2 src_pool) 1 = zero_frame
   \<and> calls (revoke_and_free_buffers dev_ok 2 src_pool) = [VmbFrameRevoke 0, VmbAlignedFree 1000]
   \<and> revoke_and_free_buffers dev_ok 2 (revoke_and_free_buffers dev_ok 2 src_pool)
       = revoke_and_free_buffers dev_ok 2 src_pool
   \<and> revoke_and_free_buffers dev_ok 2 src_init = src_init"
proof -
  have h: "\<forall>i<2. buffer (frame_buffers src_pool i) = 0 \<longrightarrow> frame_buffers src_pool i = zero_frame"
    by (simp add: src_pool_def src_init_def no_frames_def)
  have h0: "\<forall>i<2. frame_buffers src_init i = zero_frame"
    by (simp add: src_init_def no_frames_def)
  have c: "concat (map (revoke_calls src_pool) [0..<2]) = [VmbFrameRevoke 0, VmbAlignedFree 1000]"
    by (simp add: revoke_calls_def src_pool_def src_init_def no_frames_def zero_frame_def
          upt_rec [of 0] upt_rec [of 1] upt_rec [of 2] numeral_2_eq_2)
  have c0: "calls src_pool = []"
    by (simp add: src_pool_def src_init_def)
  show ?thesis
    using revoke_and_free_buffers_idempotent [of dev_ok 2 src_pool]
      revoke_and_free_buffers_idempotent [of dev_ok 2 src_init] h h0 c c0
    by simp
qed

text \<open>
  The claim as stated fails on a pool whose descriptors were announced
  without memory of their own and kept a NULL buffer pointer: revoke skips
  them, so the descriptor keeps its size and no VmbFrameRevoke is issued.
\<close>

theorem revoke_and_free_buffers_counterexample:
  "fst (alloc_and_announce_buffers dev_tl 1 src_tl) = VmbErrorSuccess
   \<and> frame_buffers (revoke_and_free_buffers dev_tl 1 src_tl_announced) 0 \<noteq> zero_frame
   \<and> bufferSize (frame_buffers (revoke_and_free_buffers dev_tl 1 src_tl_announced) 0) = 4096
   \<and> VmbFrameRevoke 0 \<notin> set (calls (revoke_and_free_buffers dev_tl 1 src_tl_announced))"
  by (simp add: src_tl_announced_def alloc_and_announce_buffers_def alloc_and_announce_frame_def
        announce_frame_def revoke_and_free_buffers_def revoke_frame_def vmb_def set_frame_def
        src_tl_def src_init_def no_frames_def zero_frame_def answer_def Let_def)

subsection \<open>Allocating and announcing the frame buffers\<close>

lemma announce_frame_props:
  assumes "announce_frame dev p i s = ((r1, brk), s1)"
  shows "allocation_mode s1 = allocation_mode s"
    and "filled_frame_queue s1 = filled_frame_queue s"
    and "j \<noteq> i \<Longrightarrow> frame_buffers s1 j = frame_buffers s j"
    and "\<exists>ys. calls s1 = calls s @ VmbFrameAnnounce i # ys \<and>
           (\<forall>c \<in> set ys. \<not> is_alloc c) \<and>
           (\<not> brk \<longrightarrow> ys = [] \<and> r1 = VmbErrorSuccess \<and>
              bufferSize (frame_buffers s1 i) = p \<and>
              context0 (frame_buffers s1 i) = filled_frame_queue s \<and>
              (buffer (frame_buffers s i) \<noteq> 0 \<longrightarrow>
                 buffer (frame_buffers s1 i) = buffer (frame_buffers s i)))"
  using assms
  by (auto simp: announce_frame_def vmb_def set_frame_def Let_def split_beta split: if_splits)

lemma alloc_and_announce_frame_props:
  assumes "alloc_and_announce_frame dev p i s = ((r1, brk), s1)"
  shows "allocation_mode s1 = allocation_mode s"
    and "filled_frame_queue s1 = filled_frame_queue s"
    and "j \<noteq> i \<Longrightarrow> frame_buffers s1 j = frame_buffers s j"
  using assms
  by (auto simp: alloc_and_announce_frame_def announce_frame_def vmb_def set_frame_def Let_def
        split_beta split: if_splits)

lemma alloc_and_announce_loop_frame:
  "alloc_and_announce_loop dev p is (r, s) = (res, s') \<Longrightarrow>
   allocation_mode s' = allocation_mode s \<and> filled_frame_queue s' = filled_frame_queue s \<and>
   (\<forall>j. j \<notin> set is \<longrightarrow> frame_buffers s' j = frame_buffers s j)"
proof (induction "is" arbitrary: r s)
  case Nil
  then show ?case by simp
next
  case (Cons i "is")
  obtain r1 brk s1 where b: "alloc_and_announce_frame dev p i s = ((r1, brk), s1)"
    by (metis surj_pair)
  note bp = alloc_and_announce_frame_props [OF b]
  show ?case
  proof (cases brk)
    case True
    with Cons.prems b have "s' = s1" by simp
    with bp show ?thesis by simp
  next
    case False
    with Cons.prems b have "alloc_and_announce_loop dev p is (r1, s1) = (res, s')" by simp
    from Cons.IH [OF this] bp show ?thesis by simp
  qed
qed

lemma alloc_and_announce_frame_grows:
  "\<exists>ys. calls (snd (alloc_and_announce_frame dev pl i s)) = calls s @ ys"
  by (auto simp: alloc_and_announce_frame_def announce_frame_def vmb_def set_frame_def Let_def
        split_beta split: if_splits)

lemma alloc_and_announce_loop_grows:
  "alloc_and_announce_loop dev pl is (r, s) = (res, s') \<Longrightarrow> \<exists>xs. calls s' = calls s @ xs"
proof (induction "is" arbitrary: r s)
  case Nil
  then show ?case by simp
next
  case (Cons i "is")
  obtain r1 brk s1 where b: "alloc_and_announce_frame dev pl i s = ((r1, brk), s1)"
    by (metis surj_pair)
  from alloc_and_announce_frame_grows [of dev pl i s] b obtain ys where
    ys: "calls s1 = calls s @ ys" by auto
  show ?case
  proof (cases brk)
    case True
    with Cons.prems b have "s' = s1" by simp
    with ys show ?thesis by blast
  next
    case False
    with Cons.prems b have "alloc_and_announce_loop dev pl is (r1, s1) = (res, s')" by simp
    from Cons.IH [OF this] obtain xs where "calls s' = calls s1 @ xs" by (elim exE)
    with ys have "calls s' = calls s @ (ys @ xs)" by simp
    then show ?thesis by blast
  qed
qed

text \<open>
  The calls of one turn of the loop when the element allocates: the read of
  the alignment and the allocation; then, if the allocation gave NULL,
  nothing more; otherwise the announcement, followed by free when it was
  refused.
\<close>

lemma alloc_and_announce_frame_shape:
  assumes "alloc_and_announce_frame dev pl i s = ((r1, brk), s1)"
    and "allocation_mode s = GST_VMBSRC_ALLOCATION_MODE_ANNOUNCE_FRAME"
  shows "\<exists>al.
      (nat (ival (dev (calls s @ [VmbFeatureIntGet ''StreamBufferAlignment''])
                   (VmbAlignedAlloc al pl))) = 0 \<and> brk \<and> r1 = VmbErrorResources \<and>
       calls s1 = calls s @ [VmbFeatureIntGet ''StreamBufferAlignment'', VmbAlignedAlloc al pl])
    \<or> (nat (ival (dev (calls s @ [VmbFeatureIntGet ''StreamBufferAlignment''])
                   (VmbAlignedAlloc al pl))) \<noteq> 0 \<and> \<not> brk \<and>
       buffer (frame_buffers s1 i) =
         nat (ival (dev (calls s @ [VmbFeatureIntGet ''StreamBufferAlignment''])
                      (VmbAlignedAlloc al pl))) \<and>
       calls s1 = calls s @ [VmbFeatureIntGet ''StreamBufferAlignment'', VmbAlignedAlloc al pl,
                             VmbFrameAnnounce i])
    \<or> (nat (ival (dev (calls s @ [VmbFeatureIntGet ''StreamBufferAlignment''])
                   (VmbAlignedAlloc al pl))) \<noteq> 0 \<and> brk \<and>
       (\<exists>b. calls s1 = calls s @ [VmbFeatureIntGet ''StreamBufferAlignment'',
                                  VmbAlignedAlloc al pl, VmbFrameAnnounce i, libc_free b]))"
  using assms
  by (intro exI [of _ "if rc (dev (calls s) (VmbFeatureIntGet ''StreamBufferAlignment'')) =
                          VmbErrorSuccess
                       then ival (dev (calls s) (VmbFeatureIntGet ''StreamBufferAlignment''))
                       else 1"])
     (auto simp: alloc_and_announce_frame_def announce_frame_def vmb_def set_frame_def Let_def
        split_beta split: if_splits)

lemma append_eq_two:
  "[c0, c1] = p @ x # rest \<Longrightarrow> (p = [] \<and> x = c0) \<or> (p = [c0] \<and> x = c1 \<and> rest = [])"
  by (auto simp: Cons_eq_append_conv)

lemma append_eq_three:
  "c0 # c1 # c2 # xs = p @ x # rest \<Longrightarrow>
   (p = [] \<and> x = c0) \<or> (p = [c0] \<and> x = c1) \<or> (p = [c0, c1] \<and> x = c2) \<or>
   (\<exists>p'. p = c0 # c1 # c2 # p' \<and> xs = p' @ x # rest)"
  by (auto simp: Cons_eq_append_conv)

text \<open>
  A VmbAlignedAlloc of the loop that the device answers with NULL is the
  last call of the loop, which then gives VmbErrorResources; nothing was
  released before it, and the frames announced before it keep their memory.
\<close>

lemma alloc_and_announce_loop_failed_alloc:
  "alloc_and_announce_loop dev pl is (r, s) = (res, s') \<Longrightarrow>
   allocation_mode s = GST_VMBSRC_ALLOCATION_MODE_ANNOUNCE_FRAME \<Longrightarrow> distinct is \<Longrightarrow>
   calls s' = calls s @ p @ VmbAlignedAlloc a n # rest \<Longrightarrow>
   nat (ival (dev (calls s @ p) (VmbAlignedAlloc a n))) = 0 \<Longrightarrow>
   rest = [] \<and> res = VmbErrorResources \<and> filter is_release p = [] \<and>
   (\<forall>k. VmbFrameAnnounce k \<in> set p \<longrightarrow> buffer (frame_buffers s' k) \<noteq> 0) \<and>
   (\<forall>p1 a' n' k p2. p = p1 @ VmbAlignedAlloc a' n' # VmbFrameAnnounce k # p2 \<longrightarrow>
      buffer (frame_buffers s' k) = nat (ival (dev (calls s @ p1) (VmbAlignedAlloc a' n'))))"
proof (induction "is" arbitrary: r s p)
  case Nil
  then show ?case by simp
next
  case (Cons i "is")
  let ?g = "VmbFeatureIntGet ''StreamBufferAlignment''"
  obtain r1 brk s1 where b: "alloc_and_announce_frame dev pl i s = ((r1, brk), s1)"
    by (metis surj_pair)
  from alloc_and_announce_frame_shape [OF b Cons.prems(2)] obtain al where
    sh: "(nat (ival (dev (calls s @ [?g]) (VmbAlignedAlloc al pl))) = 0 \<and> brk \<and>
          r1 = VmbErrorResources \<and> calls s1 = calls s @ [?g, VmbAlignedAlloc al pl])
       \<or> (nat (ival (dev (calls s @ [?g]) (VmbAlignedAlloc al pl))) \<noteq> 0 \<and> \<not> brk \<and>
          buffer (frame_buffers s1 i) = nat (ival (dev (calls s @ [?g]) (VmbAlignedAlloc al pl))) \<and>
          calls s1 = calls s @ [?g, VmbAlignedAlloc al pl, VmbFrameAnnounce i])
       \<or> (nat (ival (dev (calls s @ [?g]) (VmbAlignedAlloc al pl))) \<noteq> 0 \<and> brk \<and>
          (\<exists>b. calls s1 = calls s @ [?g, VmbAlignedAlloc al pl, VmbFrameAnnounce i, libc_free b]))"
    by (elim exE)
  from sh consider
      (null) "nat (ival (dev (calls s @ [?g]) (VmbAlignedAlloc al pl))) = 0" "brk"
        "r1 = VmbErrorResources" "calls s1 = calls s @ [?g, VmbAlignedAlloc al pl]"
    | (announced) "nat (ival (dev (calls s @ [?g]) (VmbAlignedAlloc al pl))) \<noteq> 0" "\<not> brk"
        "buffer (frame_buffers s1 i) = nat (ival (dev (calls s @ [?g]) (VmbAlignedAlloc al pl)))"
        "calls s1 = calls s @ [?g, VmbAlignedAlloc al pl, VmbFrameAnnounce i]"
    | (refused) fb where "nat (ival (dev (calls s @ [?g]) (VmbAlignedAlloc al pl))) \<noteq> 0" "brk"
        "calls s1 = calls s @ [?g, VmbAlignedAlloc al pl, VmbFrameAnnounce i, libc_free fb]"
    by (elim disjE conjE exE) simp_all
  then show ?case
  proof cases
    case null
    with Cons.prems(1) b have e: "s' = s1" "res = r1" by simp_all
    with Cons.prems(4) null(4) have "[?g, VmbAlignedAlloc al pl] = p @ VmbAlignedAlloc a n # rest"
      by simp
    from append_eq_two [OF this] have "p = [?g]" "rest = []" by auto
    with e null(3) show ?thesis by (simp add: Cons_eq_append_conv)
  next
    case announced
    with Cons.prems(1) b have l: "alloc_and_announce_loop dev pl is (r1, s1) = (res, s')" by simp
    have m: "allocation_mode s1 = GST_VMBSRC_ALLOCATION_MODE_ANNOUNCE_FRAME"
      using alloc_and_announce_frame_props(1) [OF b] Cons.prems(2) by simp
    from Cons.prems(3) have d: "distinct is" and ni: "i \<notin> set is" by simp_all
    obtain xs where xs: "calls s' = calls s1 @ xs"
      using alloc_and_announce_loop_grows [OF l] by (elim exE)
    with Cons.prems(4) announced(4)
    have "?g # VmbAlignedAlloc al pl # VmbFrameAnnounce i # xs = p @ VmbAlignedAlloc a n # rest"
      by simp
    from append_eq_three [OF this] announced(1) Cons.prems(5)
    obtain p' where p': "p = ?g # VmbAlignedAlloc al pl # VmbFrameAnnounce i # p'"
      and x': "xs = p' @ VmbAlignedAlloc a n # rest"
      by auto
    have c': "calls s' = calls s1 @ p' @ VmbAlignedAlloc a n # rest"
      using xs x' by simp
    have n': "nat (ival (dev (calls s1 @ p') (VmbAlignedAlloc a n))) = 0"
      using Cons.prems(5) p' announced(4) by simp
    from Cons.IH [OF l m d c' n']
    have ih: "rest = []" "res = VmbErrorResources" "filter is_release p' = []"
      "\<forall>k. VmbFrameAnnounce k \<in> set p' \<longrightarrow> buffer (frame_buffers s' k) \<noteq> 0"
      and ihm: "\<forall>p1 a' n' k p2. p' = p1 @ VmbAlignedAlloc a' n' # VmbFrameAnnounce k # p2 \<longrightarrow>
        buffer (frame_buffers s' k) = nat (ival (dev (calls s1 @ p1) (VmbAlignedAlloc a' n')))"
      by simp_all
    have keep: "frame_buffers s' i = frame_buffers s1 i"
      using alloc_and_announce_loop_frame [OF l] ni by simp
    have held: "buffer (frame_buffers s' k) = nat (ival (dev (calls s @ p1) (VmbAlignedAlloc a' n')))"
      if dec: "p = p1 @ VmbAlignedAlloc a' n' # VmbFrameAnnounce k # p2" for p1 a' n' k p2
    proof -
      from dec p' have "?g # VmbAlignedAlloc al pl # VmbFrameAnnounce i # p' =
          p1 @ VmbAlignedAlloc a' n' # VmbFrameAnnounce k # p2" by simp
      from append_eq_three [OF this] consider
          (here) "p1 = [?g]" "VmbAlignedAlloc a' n' = VmbAlignedAlloc al pl"
        | (later) p1' where "p1 = ?g # VmbAlignedAlloc al pl # VmbFrameAnnounce i # p1'"
            "p' = p1' @ VmbAlignedAlloc a' n' # VmbFrameAnnounce k # p2"
        by auto
      then show ?thesis
      proof cases
        case here
        with dec p' have "k = i" by simp
        with here keep announced(3) show ?thesis by simp
      next
        case later
        with ihm have "buffer (frame_buffers s' k) =
            nat (ival (dev (calls s1 @ p1') (VmbAlignedAlloc a' n')))" by blast
        with later(1) announced(4) show ?thesis by simp
      qed
    qed
    have nz: "buffer (frame_buffers s' i) \<noteq> 0"
      using keep announced(1,3) by simp
    show ?thesis
      using ih nz p' held by auto
  next
    case refused
    with Cons.prems(1) b have e: "s' = s1" by simp
    with Cons.prems(4) refused(3)
    have "?g # VmbAlignedAlloc al pl # VmbFrameAnnounce i # [libc_free fb] =
          p @ VmbAlignedAlloc a n # rest"
      by simp
    from append_eq_three [OF this] refused(1) Cons.prems(5)
    have False by (auto simp: Cons_eq_append_conv)
    then show ?thesis ..
  qed
qed

text \<open>
  C4, as amended. With allocation mode AnnounceFrame, take any
  VmbAlignedAlloc among the calls of alloc_and_announce_buffers that the
  device answers with NULL. It is the last call of the function: the loop
  is left there. The function returns VmbErrorResources and has released
  nothing: among its calls there is no VmbAlignedFree, no free and no
  VmbFrameRevoke, and every frame it announced before still has its buffer
  pointer in the descriptor, namely the address that the VmbAlignedAlloc
  just before the announcement had returned.
\<close>

theorem alloc_failure_keeps_earlier_buffers:
  assumes "allocation_mode s = GST_VMBSRC_ALLOCATION_MODE_ANNOUNCE_FRAME"
    and "alloc_and_announce_buffers dev N s = (result, s')"
    and "new_calls s s' = p @ VmbAlignedAlloc a n # rest"
    and "nat (ival (dev (calls s @ p) (VmbAlignedAlloc a n))) = 0"
  shows "rest = [] \<and> result = VmbErrorResources \<and> filter is_release (new_calls s s') = [] \<and>
         (\<forall>i. VmbFrameAnnounce i \<in> set (new_calls s s') \<longrightarrow> buffer (frame_buffers s' i) \<noteq> 0) \<and>
         (\<forall>p1 a' n' k p2. p = p1 @ VmbAlignedAlloc a' n' # VmbFrameAnnounce k # p2 \<longrightarrow>
            buffer (frame_buffers s' k) = nat (ival (dev (calls s @ p1) (VmbAlignedAlloc a' n'))))"
proof -
  let ?rp = "dev (calls s) VmbPayloadSizeGet"
  let ?s1 = "s\<lparr>calls := calls s @ [VmbPayloadSizeGet]\<rparr>"
  show ?thesis
  proof (cases "rc ?rp = VmbErrorSuccess")
    case False
    with assms(2) have "s' = ?s1"
      by (simp add: alloc_and_announce_buffers_def vmb_def)
    with assms(3) have "[VmbPayloadSizeGet] = p @ VmbAlignedAlloc a n # rest"
      by (simp add: new_calls_def)
    then have False by (auto simp: Cons_eq_append_conv)
    then show ?thesis ..
  next
    case True
    with assms(2) have l: "alloc_and_announce_loop dev (nat (ival ?rp)) [0..<N] (rc ?rp, ?s1) = (result, s')"
      by (simp add: alloc_and_announce_buffers_def vmb_def)
    obtain xs where xs: "calls s' = calls ?s1 @ xs"
      using alloc_and_announce_loop_grows [OF l] by (elim exE)
    then have n: "new_calls s s' = VmbPayloadSizeGet # xs"
      by (simp add: new_calls_def)
    with assms(3) have "VmbPayloadSizeGet # xs = p @ VmbAlignedAlloc a n # rest" by simp
    then obtain p' where p': "p = VmbPayloadSizeGet # p'" and x': "xs = p' @ VmbAlignedAlloc a n # rest"
      by (auto simp: Cons_eq_append_conv)
    have c': "calls s' = calls ?s1 @ p' @ VmbAlignedAlloc a n # rest"
      using xs x' by simp
    have n': "nat (ival (dev (calls ?s1 @ p') (VmbAlignedAlloc a n))) = 0"
      using assms(4) p' by simp
    have m: "allocation_mode ?s1 = GST_VMBSRC_ALLOCATION_MODE_ANNOUNCE_FRAME"
      using assms(1) by simp
    from alloc_and_announce_loop_failed_alloc [OF l m _ c' n']
    have f: "rest = [] \<and> result = VmbErrorResources \<and> filter is_release p' = [] \<and>
          (\<forall>k. VmbFrameAnnounce k \<in> set p' \<longrightarrow> buffer (frame_buffers s' k) \<noteq> 0)"
      and fm: "\<forall>p1 a' n' k p2. p' = p1 @ VmbAlignedAlloc a' n' # VmbFrameAnnounce k # p2 \<longrightarrow>
          buffer (frame_buffers s' k) = nat (ival (dev (calls ?s1 @ p1) (VmbAlignedAlloc a' n')))"
      by simp_all
    have held: "buffer (frame_buffers s' k) = nat (ival (dev (calls s @ p1) (VmbAlignedAlloc a' n')))"
      if dec: "p = p1 @ VmbAlignedAlloc a' n' # VmbFrameAnnounce k # p2" for p1 a' n' k p2
    proof -
      from dec p' obtain p1' where p1': "p1 = VmbPayloadSizeGet # p1'"
        and d': "p' = p1' @ VmbAlignedAlloc a' n' # VmbFrameAnnounce k # p2"
        by (auto simp: Cons_eq_append_conv)
      from fm d' have "buffer (frame_buffers s' k) =
          nat (ival (dev (calls ?s1 @ p1') (VmbAlignedAlloc a' n')))" by blast
      with p1' show ?thesis by simp
    qed
    from f held show ?thesis
      unfolding assms(3) p' by auto
  qed
qed

theorem alloc_failure_keeps_earlier_buffers_witness:
  "allocation_mode src_init = GST_VMBSRC_ALLOCATION_MODE_ANNOUNCE_FRAME
   \<and> new_calls src_init (snd (alloc_and_announce_buffers dev_alloc_fails 3 src_init)) =
       [VmbPayloadSizeGet, VmbFeatureIntGet ''StreamBufferAlignment'', VmbAlignedAlloc 1 4096,
        VmbFrameAnnounce 0, VmbFeatureIntGet ''StreamBufferAlignment'', VmbAlignedAlloc 1 4096]
   \<and> nat (ival (dev_alloc_fails
        [VmbPayloadSizeGet, VmbFeatureIntGet ''StreamBufferAlignment'', VmbAlignedAlloc 1 4096,
         VmbFrameAnnounce 0, VmbFeatureIntGet ''StreamBufferAlignment'']
        (VmbAlignedAlloc 1 4096))) = 0
   \<and> fst (alloc_and_announce_buffers dev_alloc_fails 3 src_init) = VmbErrorResources
   \<and> buffer (frame_buffers (snd (alloc_and_announce_buffers dev_alloc_fails 3 src_init)) 0) = 1000"
proof -
  let ?p = "[VmbPayloadSizeGet, VmbFeatureIntGet ''StreamBufferAlignment'', VmbAlignedAlloc 1 4096,
         VmbFrameAnnounce 0, VmbFeatureIntGet ''StreamBufferAlignment'']"
  have c: "new_calls src_init (snd (alloc_and_announce_buffers dev_alloc_fails 3 src_init)) =
       ?p @ VmbAlignedAlloc 1 4096 # []"
    by (simp add: alloc_and_announce_buffers_def alloc_and_announce_frame_def
        announce_frame_def vmb_def set_frame_def new_calls_def
        src_init_def no_frames_def zero_frame_def answer_def Let_def
        upt_rec [of 0] upt_rec [of 1] upt_rec [of 2] upt_rec [of 3] numeral_3_eq_3)
  have m: "allocation_mode src_init = GST_VMBSRC_ALLOCATION_MODE_ANNOUNCE_FRAME"
    by (simp add: src_init_def)
  have z: "nat (ival (dev_alloc_fails (calls src_init @ ?p) (VmbAlignedAlloc 1 4096))) = 0"
    by (simp add: src_init_def answer_def)
  have e: "alloc_and_announce_buffers dev_alloc_fails 3 src_init =
      (fst (alloc_and_announce_buffers dev_alloc_fails 3 src_init),
       snd (alloc_and_announce_buffers dev_alloc_fails 3 src_init))"
    by simp
  have h: "?p = [VmbPayloadSizeGet, VmbFeatureIntGet ''StreamBufferAlignment''] @
      VmbAlignedAlloc 1 4096 # VmbFrameAnnounce 0 # [VmbFeatureIntGet ''StreamBufferAlignment'']"
    by simp
  have a: "nat (ival (dev_alloc_fails
      (calls src_init @ [VmbPayloadSizeGet, VmbFeatureIntGet ''StreamBufferAlignment''])
      (VmbAlignedAlloc 1 4096))) = 1000"
    by (simp add: src_init_def answer_def)
  from alloc_failure_keeps_earlier_buffers [OF m e c z]
  have "fst (alloc_and_announce_buffers dev_alloc_fails 3 src_init) = VmbErrorResources"
    and "\<forall>p1 a' n' k p2. ?p = p1 @ VmbAlignedAlloc a' n' # VmbFrameAnnounce k # p2 \<longrightarrow>
       buffer (frame_buffers (snd (alloc_and_announce_buffers dev_alloc_fails 3 src_init)) k) =
       nat (ival (dev_alloc_fails (calls src_init @ p1) (VmbAlignedAlloc a' n')))"
    by simp_all
  with h a have "fst (alloc_and_announce_buffers dev_alloc_fails 3 src_init) = VmbErrorResources"
    and "buffer (frame_buffers (snd (alloc_and_announce_buffers dev_alloc_fails 3 src_init)) 0) = 1000"
    by (simp, metis)
  with c m z show ?thesis
    by (simp add: src_init_def)
qed

text \<open>
  The claim as stated fails when the first allocation succeeds and the
  second fails: the call returns VmbErrorResources while descriptor 0 still
  holds the memory at address 1000, and nothing was freed.
\<close>

theorem alloc_failure_counterexample:
  "fst (alloc_and_announce_buffers dev_alloc_fails 2 src_init) = VmbErrorResources
   \<and> buffer (frame_buffers (snd (alloc_and_announce_buffers dev_alloc_fails 2 src_init)) 0) = 1000
   \<and> filter is_release (calls (snd (alloc_and_announce_buffers dev_alloc_fails 2 src_init))) = []"
  by (simp add: alloc_and_announce_buffers_def alloc_and_announce_frame_def
        announce_frame_def vmb_def set_frame_def
        src_init_def no_frames_def zero_frame_def answer_def Let_def
        upt_rec [of 0] upt_rec [of 1] upt_rec [of 2] numeral_2_eq_2)

subsection \<open>Creating buffers from filled frames\<close>


lemma calls_device_completes:
  "calls (device_completes ds s) = calls s"
  by (induction ds s rule: device_completes.induct)
     (simp_all add: vimbax_frame_callback_def g_async_queue_push_def set_frame_def
        split: option.splits)

lemma pop_props:
  "g_async_queue_timeout_pop s = (f, s1) \<Longrightarrow>
   incomplete_frame_handling s1 = incomplete_frame_handling s \<and> calls s1 = calls s \<and>
   frame_buffers s1 = frame_buffers s"
  by (auto simp: g_async_queue_timeout_pop_def split: option.splits list.splits)







text \<open>
  The cancellation point: the first poll that sees the element in a state
  other than playing ends the call with GST_FLOW_FLUSHING, and no call into
  the library has been made.
\<close>

lemma create_flushing:
  "element_state t \<noteq> GST_STATE_PLAYING \<Longrightarrow>
   \<exists>s'. gst_vmbsrc_create dev (t # ts) s = Some (GST_FLOW_FLUSHING, s') \<and> calls s' = calls s"
proof -
  assume np: "element_state t \<noteq> GST_STATE_PLAYING"
  obtain f s1 where p: "g_async_queue_timeout_pop (device_completes (delivered t) s) = (f, s1)"
    by (metis surj_pair)
  with np have "gst_vmbsrc_create dev (t # ts) s = Some (GST_FLOW_FLUSHING, s1)" by simp
  moreover have "calls s1 = calls s"
    using pop_props [OF p] by (simp add: calls_device_completes)
  ultimately show ?thesis by blast
qed

text \<open>
  C2. The pop comes before the look at the element state. With descriptor 0
  waiting in the queue and the element paused, create returns
  GST_FLOW_FLUSHING, the queue is empty afterwards and the frame was not
  given back to the device: the Flushing path has consumed a frame.
\<close>

theorem create_flushing_loses_frame:
  "queue_store src_one_filled 1 = [0]
   \<and> map_option fst (gst_vmbsrc_create dev_ok [tick_paused] src_one_filled) = Some GST_FLOW_FLUSHING
   \<and> map_option (\<lambda>p. queue_store (snd p) 1) (gst_vmbsrc_create dev_ok [tick_paused] src_one_filled) = Some []
   \<and> map_option (\<lambda>p. calls (snd p)) (gst_vmbsrc_create dev_ok [tick_paused] src_one_filled) = Some []"
  by (simp add: g_async_queue_timeout_pop_def tick_paused_def src_one_filled_def
          src_streaming_def src_init_def no_queues_def)

subsection \<open>Starting and stopping the acquisition\<close>

lemma vmb_is_acquiring:
  "vmb dev c (s\<lparr>is_acquiring := b\<rparr>) = (fst (vmb dev c s), (snd (vmb dev c s))\<lparr>is_acquiring := b\<rparr>)"
  by (simp add: vmb_def)

lemma wait_command_done_is_acquiring_Some:
  assumes "wait_command_done dev n s = Some y"
  shows "\<forall>b. wait_command_done dev n (s\<lparr>is_acquiring := b\<rparr>) = Some (y\<lparr>is_acquiring := b\<rparr>)"
proof (rule wait_command_done.raw_induct
    [where P = "\<lambda>dev n s y. \<forall>b. wait_command_done dev n (s\<lparr>is_acquiring := b\<rparr>)
                   = Some (y\<lparr>is_acquiring := b\<rparr>)", OF _ assms], goal_cases)
  case (1 wait dev n s y)
  show ?case
  proof
    fix b
    let ?r = "fst (vmb dev (VmbFeatureCommandIsDone n) s)"
    let ?s1 = "snd (vmb dev (VmbFeatureCommandIsDone n) s)"
    show "wait_command_done dev n (s\<lparr>is_acquiring := b\<rparr>) = Some (y\<lparr>is_acquiring := b\<rparr>)"
    proof (cases "rc ?r \<noteq> VmbErrorSuccess \<or> ival ?r \<noteq> 0")
      case True
      with 1(2) have "y = ?s1" by (auto simp: split_beta split: if_splits)
      with True show ?thesis
        by (subst wait_command_done.simps) (auto simp: vmb_is_acquiring)
    next
      case False
      with 1(2) have "wait dev n ?s1 = Some y" by (auto simp: split_beta split: if_splits)
      from 1(1) [OF this]
      have "wait_command_done dev n (?s1\<lparr>is_acquiring := b\<rparr>) = Some (y\<lparr>is_acquiring := b\<rparr>)"
        by blast
      with False show ?thesis
        by (subst wait_command_done.simps) (auto simp: vmb_is_acquiring)
    qed
  qed
qed

lemma wait_command_done_is_acquiring:
  "wait_command_done dev n (s\<lparr>is_acquiring := b\<rparr>) =
   map_option (\<lambda>y. y\<lparr>is_acquiring := b\<rparr>) (wait_command_done dev n s)"
proof (cases "wait_command_done dev n s")
  case (Some y)
  then show ?thesis using wait_command_done_is_acquiring_Some by simp
next
  case None
  show ?thesis
  proof (cases "wait_command_done dev n (s\<lparr>is_acquiring := b\<rparr>)")
    case none: None
    with None show ?thesis by simp
  next
    case (Some y')
    from wait_command_done_is_acquiring_Some [OF this]
    have "wait_command_done dev n (s\<lparr>is_acquiring := b, is_acquiring := is_acquiring s\<rparr>)
          = Some (y'\<lparr>is_acquiring := is_acquiring s\<rparr>)" by blast
    with None show ?thesis by simp
  qed
qed

lemma calls_wait_is_acquiring:
  "map_option calls (wait_command_done dev n (s\<lparr>is_acquiring := b\<rparr>)) =
   map_option calls (wait_command_done dev n s)"
  by (simp add: wait_command_done_is_acquiring option.map_comp comp_def)

lemma queue_frames_loop_is_acquiring:
  "queue_frames_loop dev is (r, s\<lparr>is_acquiring := b\<rparr>) =
   (fst (queue_frames_loop dev is (r, s)), (snd (queue_frames_loop dev is (r, s)))\<lparr>is_acquiring := b\<rparr>)"
  by (induction "is" arbitrary: r s) (simp_all add: vmb_is_acquiring split_beta)

text \<open>
  C7, as amended. Neither start_image_acquisition nor
  stop_image_acquisition looks at is_acquiring: whatever the flag says, they
  make the same calls and return the same code. Called in the wrong state
  they report an error only if the device answers one.
\<close>

theorem start_stop_ignore_acquisition_state:
  "code_and_calls (start_image_acquisition dev N (s\<lparr>is_acquiring := b\<rparr>)) =
     code_and_calls (start_image_acquisition dev N s)
   \<and> code_and_calls (stop_image_acquisition dev (s\<lparr>is_acquiring := b\<rparr>)) =
     code_and_calls (stop_image_acquisition dev s)"
proof
  show "code_and_calls (start_image_acquisition dev N (s\<lparr>is_acquiring := b\<rparr>)) =
     code_and_calls (start_image_acquisition dev N s)"
    by (simp add: code_and_calls_def start_image_acquisition_def vmb_is_acquiring
          queue_frames_loop_is_acquiring wait_command_done_is_acquiring split_beta
          split: option.splits)
  show "code_and_calls (stop_image_acquisition dev (s\<lparr>is_acquiring := b\<rparr>)) =
     code_and_calls (stop_image_acquisition dev s)"
    by (simp add: code_and_calls_def stop_image_acquisition_def vmb_is_acquiring
          wait_command_done_is_acquiring split_beta
          split: option.splits)
qed


lemma wait_command_done_dev_ok:
  "wait_command_done dev_ok n s = Some (s\<lparr>calls := calls s @ [VmbFeatureCommandIsDone n]\<rparr>)"
  by (subst wait_command_done.simps) (simp add: vmb_def dev_ok_def answer_def)

lemma wait_command_done_dev_stop_refused:
  "wait_command_done dev_stop_refused n s = Some (s\<lparr>calls := calls s @ [VmbFeatureCommandIsDone n]\<rparr>)"
  by (subst wait_command_done.simps) (simp add: vmb_def answer_def)

lemma wait_command_done_dev_poll_fails:
  "wait_command_done dev_poll_fails n s = Some (s\<lparr>calls := calls s @ [VmbFeatureCommandIsDone n]\<rparr>)"
  by (subst wait_command_done.simps) (simp add: vmb_def answer_def)

lemma wait_command_done_dev_never_done:
  "wait_command_done dev_never_done n s = None"
proof (cases "wait_command_done dev_never_done n s")
  case None
  then show ?thesis .
next
  case (Some y)
  have "dev_never_done \<noteq> dev_never_done"
  proof (rule wait_command_done.raw_induct
      [where P = "\<lambda>dev n s y. dev \<noteq> dev_never_done", OF _ Some], goal_cases)
    case (1 wait dev n s y)
    show ?case
    proof
      assume d: "dev = dev_never_done"
      with 1(2) have "wait dev n (snd (vmb dev (VmbFeatureCommandIsDone n) s)) = Some y"
        by (simp add: vmb_def answer_def)
      from 1(1) [OF this] d show False by simp
    qed
  qed
  then show ?thesis by simp
qed

theorem start_stop_ignore_acquisition_state_witness:
  "code_and_calls (start_image_acquisition dev_ok 2 (src_init\<lparr>is_acquiring := True\<rparr>)) =
     Some (VmbErrorSuccess, [VmbCaptureStart, VmbCaptureFrameQueue 0, VmbCaptureFrameQueue 1,
        VmbFeatureCommandRun ''AcquisitionStart'', VmbFeatureCommandIsDone ''AcquisitionStart''])
   \<and> code_and_calls (stop_image_acquisition dev_ok (src_init\<lparr>is_acquiring := True\<rparr>)) =
     Some (VmbErrorSuccess, [VmbFeatureCommandRun ''AcquisitionStop'',
        VmbFeatureCommandIsDone ''AcquisitionStop'', VmbCaptureEnd, VmbCaptureQueueFlush])"
proof -
  have a: "code_and_calls (start_image_acquisition dev_ok 2 src_init) =
     Some (VmbErrorSuccess, [VmbCaptureStart, VmbCaptureFrameQueue 0, VmbCaptureFrameQueue 1,
        VmbFeatureCommandRun ''AcquisitionStart'', VmbFeatureCommandIsDone ''AcquisitionStart''])"
    by (simp add: code_and_calls_def start_image_acquisition_def wait_command_done_dev_ok
          vmb_def dev_ok_def answer_def src_init_def
          upt_rec [of 0] upt_rec [of 1] upt_rec [of 2] numeral_2_eq_2)
  have b: "code_and_calls (stop_image_acquisition dev_ok src_init) =
     Some (VmbErrorSuccess, [VmbFeatureCommandRun ''AcquisitionStop'',
        VmbFeatureCommandIsDone ''AcquisitionStop'', VmbCaptureEnd, VmbCaptureQueueFlush])"
    by (simp add: code_and_calls_def stop_image_acquisition_def wait_command_done_dev_ok
          vmb_def dev_ok_def answer_def src_init_def)
  from start_stop_ignore_acquisition_state [where dev = dev_ok and N = 2 and s = src_init and b = True] a b
  show ?thesis by simp
qed

text \<open>
  The claim as stated fails on a device that accepts every call: start on an
  element that is acquiring, and stop on one that is idle, both return
  VmbErrorSuccess after making all their calls.
\<close>

theorem start_stop_wrong_state_counterexample:
  "is_acquiring src_streaming
   \<and> code_and_calls (start_image_acquisition dev_ok 2 src_streaming) =
     Some (VmbErrorSuccess, [VmbCaptureStart, VmbCaptureFrameQueue 0, VmbCaptureFrameQueue 1,
        VmbFeatureCommandRun ''AcquisitionStart'', VmbFeatureCommandIsDone ''AcquisitionStart''])
   \<and> \<not> is_acquiring src_init
   \<and> code_and_calls (stop_image_acquisition dev_ok src_init) =
     Some (VmbErrorSuccess, [VmbFeatureCommandRun ''AcquisitionStop'',
        VmbFeatureCommandIsDone ''AcquisitionStop'', VmbCaptureEnd, VmbCaptureQueueFlush])"
  by (simp add: code_and_calls_def start_image_acquisition_def stop_image_acquisition_def
        wait_command_done_dev_ok vmb_def dev_ok_def answer_def src_streaming_def src_init_def
        upt_rec [of 0] upt_rec [of 1] upt_rec [of 2] numeral_2_eq_2)

text \<open>
  C8. stop_image_acquisition returns the code of VmbCaptureEnd, so a device
  that refuses the AcquisitionStop command gets VmbErrorSuccess reported;
  a failing VmbFeatureCommandIsDone only ends the polling, after which start
  sets is_acquiring and returns the code of the command run, and stop that
  of VmbCaptureEnd; with a device that never reports the command done
  neither function returns.
\<close>

theorem start_stop_swallow_command_failure:
  "code_and_calls (stop_image_acquisition dev_stop_refused src_streaming) =
     Some (VmbErrorSuccess, [VmbFeatureCommandRun ''AcquisitionStop'',
        VmbFeatureCommandIsDone ''AcquisitionStop'', VmbCaptureEnd, VmbCaptureQueueFlush])
   \<and> code_and_calls (start_image_acquisition dev_poll_fails 2 src_init) =
     Some (VmbErrorSuccess, [VmbCaptureStart, VmbCaptureFrameQueue 0, VmbCaptureFrameQueue 1,
        VmbFeatureCommandRun ''AcquisitionStart'', VmbFeatureCommandIsDone ''AcquisitionStart''])
   \<and> map_option (\<lambda>p. is_acquiring (snd p)) (start_image_acquisition dev_poll_fails 2 src_init)
       = Some True
   \<and> code_and_calls (stop_image_acquisition dev_poll_fails src_streaming) =
     Some (VmbErrorSuccess, [VmbFeatureCommandRun ''AcquisitionStop'',
        VmbFeatureCommandIsDone ''AcquisitionStop'', VmbCaptureEnd, VmbCaptureQueueFlush])
   \<and> start_image_acquisition dev_never_done 2 src_init = None
   \<and> stop_image_acquisition dev_never_done src_streaming = None"
  by (simp add: code_and_calls_def start_image_acquisition_def stop_image_acquisition_def
        wait_command_done_dev_stop_refused wait_command_done_dev_poll_fails
        wait_command_done_dev_never_done
        vmb_def answer_def src_streaming_def src_init_def
        upt_rec [of 0] upt_rec [of 1] upt_rec [of 2] numeral_2_eq_2)

subsection \<open>Negotiating the format\<close>

lemma wait_command_done_result:
  assumes "wait_command_done dev n s = Some y"
  shows "\<exists>xs. y = s\<lparr>calls := calls s @ xs\<rparr> \<and> (\<forall>c \<in> set xs. is_acquisition_call c)"
proof (rule wait_command_done.raw_induct
    [where P = "\<lambda>dev n s y. \<exists>xs. y = s\<lparr>calls := calls s @ xs\<rparr> \<and>
                   (\<forall>c \<in> set xs. is_acquisition_call c)", OF _ assms], goal_cases)
  case (1 wait dev n s y)
  let ?r = "dev (calls s) (VmbFeatureCommandIsDone n)"
  let ?s1 = "s\<lparr>calls := calls s @ [VmbFeatureCommandIsDone n]\<rparr>"
  have v: "vmb dev (VmbFeatureCommandIsDone n) s = (?r, ?s1)" by (simp add: vmb_def)
  show ?case
  proof (cases "rc ?r \<noteq> VmbErrorSuccess \<or> ival ?r \<noteq> 0")
    case True
    with 1(2) have "y = ?s1" unfolding v by (simp split: if_splits)
    then show ?thesis by (intro exI [of _ "[VmbFeatureCommandIsDone n]"]) simp
  next
    case False
    with 1(2) have "wait dev n ?s1 = Some y" unfolding v by (simp split: if_splits)
    from 1(1) [OF this] obtain xs where y: "y = ?s1\<lparr>calls := calls ?s1 @ xs\<rparr>"
      and a: "\<forall>c \<in> set xs. is_acquisition_call c" by (elim exE conjE)
    show ?thesis
      by (intro exI [of _ "VmbFeatureCommandIsDone n # xs"]) (simp add: y a)
  qed
qed


lemma queue_frames_loop_result:
  "\<exists>xs. snd (queue_frames_loop dev is (r, s)) = s\<lparr>calls := calls s @ xs\<rparr> \<and>
        (\<forall>c \<in> set xs. is_acquisition_call c)"
proof (induction "is" arbitrary: r s)
  case Nil
  show ?case by (intro exI [of _ "[]"]) simp
next
  case (Cons i "is")
  let ?r = "dev (calls s) (VmbCaptureFrameQueue i)"
  let ?s1 = "s\<lparr>calls := calls s @ [VmbCaptureFrameQueue i]\<rparr>"
  have v: "vmb dev (VmbCaptureFrameQueue i) s = (?r, ?s1)" by (simp add: vmb_def)
  show ?case
  proof (cases "rc ?r \<noteq> VmbErrorSuccess")
    case True
    then show ?thesis
      by (intro exI [of _ "[VmbCaptureFrameQueue i]"]) (simp add: v)
  next
    case False
    from Cons.IH [of VmbErrorSuccess ?s1] obtain xs where
      x: "snd (queue_frames_loop dev is (VmbErrorSuccess, ?s1)) = ?s1\<lparr>calls := calls ?s1 @ xs\<rparr>"
      and a: "\<forall>c \<in> set xs. is_acquisition_call c" by (elim exE conjE)
    from False show ?thesis
      by (intro exI [of _ "VmbCaptureFrameQueue i # xs"]) (simp add: v x a)
  qed
qed

lemma start_image_acquisition_result:
  assumes "start_image_acquisition dev N s = Some (r, s')"
  shows "\<exists>xs b. s' = s\<lparr>is_acquiring := b, calls := calls s @ xs\<rparr> \<and>
           (\<forall>c \<in> set xs. is_acquisition_call c)"
proof -
  let ?r0 = "dev (calls s) VmbCaptureStart"
  let ?s1 = "s\<lparr>calls := calls s @ [VmbCaptureStart]\<rparr>"
  have v0: "vmb dev VmbCaptureStart s = (?r0, ?s1)" by (simp add: vmb_def)
  obtain res s2 where l: "queue_frames_loop dev [0..<N] (rc ?r0, ?s1) = (res, s2)"
    by (rule prod.exhaust)
  obtain xs where q: "s2 = ?s1\<lparr>calls := calls ?s1 @ xs\<rparr>"
    and qa: "\<forall>c \<in> set xs. is_acquisition_call c"
    using queue_frames_loop_result [of dev "[0..<N]" "rc ?r0" ?s1] unfolding l snd_conv
    by (elim exE conjE)
  let ?r3 = "dev (calls s2) (VmbFeatureCommandRun ''AcquisitionStart'')"
  let ?s3 = "s2\<lparr>calls := calls s2 @ [VmbFeatureCommandRun ''AcquisitionStart'']\<rparr>"
  have v3: "vmb dev (VmbFeatureCommandRun ''AcquisitionStart'') s2 = (?r3, ?s3)" by (simp add: vmb_def)
  show ?thesis
  proof (cases "rc ?r0 = VmbErrorSuccess")
    case False
    with assms have "s' = ?s1"
      unfolding start_image_acquisition_def v0 by simp
    then show ?thesis
      by (intro exI [of _ "[VmbCaptureStart]"] exI [of _ "is_acquiring s"]) simp
  next
    case True
    show ?thesis
    proof (cases "res = VmbErrorSuccess")
      case False
      with assms True have "s' = s2"
        unfolding start_image_acquisition_def v0 using l by simp
      then show ?thesis
        by (intro exI [of _ "VmbCaptureStart # xs"] exI [of _ "is_acquiring s"]) (simp add: q qa)
    next
      case ok: True
      from assms True ok obtain s4 where w: "wait_command_done dev ''AcquisitionStart'' ?s3 = Some s4"
        and s': "s' = s4\<lparr>is_acquiring := True\<rparr>"
        unfolding start_image_acquisition_def v0 using l v3 by (simp split: option.splits)
      from wait_command_done_result [OF w] obtain ys where
        y: "s4 = ?s3\<lparr>calls := calls ?s3 @ ys\<rparr>" and ya: "\<forall>c \<in> set ys. is_acquisition_call c"
        by (elim exE conjE)
      show ?thesis
        by (intro exI [of _ "VmbCaptureStart # xs @ VmbFeatureCommandRun ''AcquisitionStart'' # ys"]
              exI [of _ True]) (simp add: s' y q qa ya ball_Un)
    qed
  qed
qed

lemma stop_image_acquisition_result:
  assumes "stop_image_acquisition dev s = Some (r, s')"
  shows "\<exists>xs. s' = s\<lparr>is_acquiring := False, calls := calls s @ xs\<rparr> \<and>
           (\<forall>c \<in> set xs. is_acquisition_call c)"
proof -
  let ?r1 = "dev (calls s) (VmbFeatureCommandRun ''AcquisitionStop'')"
  let ?s1 = "s\<lparr>calls := calls s @ [VmbFeatureCommandRun ''AcquisitionStop'']\<rparr>"
  have v1: "vmb dev (VmbFeatureCommandRun ''AcquisitionStop'') s = (?r1, ?s1)" by (simp add: vmb_def)
  from assms obtain s2 where w: "wait_command_done dev ''AcquisitionStop'' ?s1 = Some s2"
    and s': "s' = s2\<lparr>is_acquiring := False, calls := calls s2 @ [VmbCaptureEnd, VmbCaptureQueueFlush]\<rparr>"
    unfolding stop_image_acquisition_def v1 by (simp add: vmb_def split: option.splits)
  from wait_command_done_result [OF w] obtain ys where
    y: "s2 = ?s1\<lparr>calls := calls ?s1 @ ys\<rparr>" and ya: "\<forall>c \<in> set ys. is_acquisition_call c"
    by (elim exE conjE)
  show ?thesis
    by (intro exI [of _ "VmbFeatureCommandRun ''AcquisitionStop'' # ys @ [VmbCaptureEnd, VmbCaptureQueueFlush]"])
       (simp add: s' y ya ball_Un)
qed

lemma queues_of_calls [simp]: "queues_of (s\<lparr>calls := c\<rparr>) = queues_of s"
  by (simp add: queues_of_def)

lemma queues_of_set_frame [simp]: "queues_of (set_frame i f s) = queues_of s"
  by (simp add: queues_of_def set_frame_def)

lemma queues_of_vmb [simp]: "queues_of (snd (vmb dev c s)) = queues_of s"
  by (simp add: vmb_def)

lemma queues_of_announce_frame:
  "queues_of (snd (announce_frame dev p i s)) = queues_of s"
proof -
  let ?s1 = "set_frame i ((frame_buffers s i)\<lparr>bufferSize := p, context0 := filled_frame_queue s\<rparr>) s"
  obtain r s2 where v: "vmb dev (VmbFrameAnnounce i) ?s1 = (r, s2)" by (rule prod.exhaust)
  have q2: "queues_of s2 = queues_of s"
    using queues_of_vmb [of dev "VmbFrameAnnounce i" ?s1] v by simp
  obtain rf s3 where f: "vmb dev (libc_free (buffer (frame_buffers s2 i))) s2 = (rf, s3)"
    by (rule prod.exhaust)
  have q3: "queues_of s3 = queues_of s"
    using queues_of_vmb [of dev "libc_free (buffer (frame_buffers s2 i))" s2] f q2 by simp
  show ?thesis
    unfolding announce_frame_def Let_def v prod.case f
    by (simp add: q2 q3)
qed

lemma queues_of_alloc_and_announce_frame:
  "queues_of (snd (alloc_and_announce_frame dev p i s)) = queues_of s"
proof -
  obtain ra s1 where va: "vmb dev (VmbFeatureIntGet ''StreamBufferAlignment'') s = (ra, s1)"
    by (rule prod.exhaust)
  have q1: "queues_of s1 = queues_of s"
    using queues_of_vmb [of dev "VmbFeatureIntGet ''StreamBufferAlignment''" s] va by simp
  obtain rb s2 where vb: "vmb dev (VmbAlignedAlloc (if rc ra = VmbErrorSuccess then ival ra else 1) p) s1
      = (rb, s2)"
    by (rule prod.exhaust)
  have q2: "queues_of s2 = queues_of s"
    using queues_of_vmb [of dev "VmbAlignedAlloc (if rc ra = VmbErrorSuccess then ival ra else 1) p" s1]
      vb q1 by simp
  show ?thesis
    unfolding alloc_and_announce_frame_def va prod.case vb Let_def
    by (simp add: queues_of_announce_frame q2)
qed

lemma routes_of_calls [simp]: "routes_of (s\<lparr>calls := c\<rparr>) = routes_of s"
  by (simp add: routes_of_def fun_eq_iff)

lemma routes_of_set_buffer:
  "routes_of (set_frame i ((frame_buffers s i)\<lparr>buffer := b\<rparr>) s) = routes_of s"
  by (simp add: routes_of_def set_frame_def fun_eq_iff)

lemma announce_frame_routes:
  assumes "announce_frame dev p i s = ((r1, brk), s1)"
  shows "\<exists>ys. calls s1 = calls s @ VmbFrameAnnounce i # ys"
    and "\<not> brk \<Longrightarrow> routes_of s1 i = filled_frame_queue s"
    and "brk \<Longrightarrow> r1 \<noteq> VmbErrorSuccess"
proof -
  from announce_frame_props(4) [OF assms]
  obtain ys where c: "calls s1 = calls s @ VmbFrameAnnounce i # ys"
    and k: "\<not> brk \<longrightarrow> context0 (frame_buffers s1 i) = filled_frame_queue s"
    by (elim exE conjE) blast
  from c show "\<exists>ys. calls s1 = calls s @ VmbFrameAnnounce i # ys" by blast
  from k show "\<not> brk \<Longrightarrow> routes_of s1 i = filled_frame_queue s" by (simp add: routes_of_def)
  from assms show "brk \<Longrightarrow> r1 \<noteq> VmbErrorSuccess"
    by (simp add: announce_frame_def vmb_def Let_def split_beta split: if_splits)
qed

lemma alloc_and_announce_frame_routes:
  assumes "alloc_and_announce_frame dev p i s = ((r1, brk), s1)"
  shows "\<exists>ys. calls s1 = calls s @ ys \<and>
           ((\<forall>c \<in> set ys. \<not> is_announce c) \<longrightarrow> routes_of s1 = routes_of s)"
    and "\<not> brk \<Longrightarrow> routes_of s1 i = filled_frame_queue s"
    and "brk \<Longrightarrow> r1 \<noteq> VmbErrorSuccess"
proof -
  let ?ra = "dev (calls s) (VmbFeatureIntGet ''StreamBufferAlignment'')"
  let ?sa = "s\<lparr>calls := calls s @ [VmbFeatureIntGet ''StreamBufferAlignment'']\<rparr>"
  let ?al = "VmbAlignedAlloc (if rc ?ra = VmbErrorSuccess then ival ?ra else 1) p"
  let ?rb = "dev (calls ?sa) ?al"
  let ?sb = "?sa\<lparr>calls := calls ?sa @ [?al]\<rparr>"
  let ?s3 = "set_frame i ((frame_buffers ?sb i)\<lparr>buffer := nat (ival ?rb)\<rparr>) ?sb"
  let ?s0 = "set_frame i ((frame_buffers s i)\<lparr>buffer := 0\<rparr>) s"
  have va: "vmb dev (VmbFeatureIntGet ''StreamBufferAlignment'') s = (?ra, ?sa)"
    by (simp add: vmb_def)
  have vb: "vmb dev ?al ?sa = (?rb, ?sb)"
    by (simp add: vmb_def)
  have all: "(\<exists>ys. calls s1 = calls s @ ys \<and>
           ((\<forall>c \<in> set ys. \<not> is_announce c) \<longrightarrow> routes_of s1 = routes_of s)) \<and>
      (\<not> brk \<longrightarrow> routes_of s1 i = filled_frame_queue s) \<and> (brk \<longrightarrow> r1 \<noteq> VmbErrorSuccess)"
  proof (cases "allocation_mode s = GST_VMBSRC_ALLOCATION_MODE_ANNOUNCE_FRAME")
    case False
    with assms have a: "announce_frame dev p i ?s0 = ((r1, brk), s1)"
      by (simp add: alloc_and_announce_frame_def)
    from announce_frame_routes(1) [OF a] obtain ys where
      "calls s1 = calls ?s0 @ VmbFrameAnnounce i # ys" by blast
    then have c: "calls s1 = calls s @ (VmbFrameAnnounce i # ys)" by (simp add: set_frame_def)
    have f: "filled_frame_queue ?s0 = filled_frame_queue s" by (simp add: set_frame_def)
    show ?thesis
      using c announce_frame_routes(2,3) [OF a] f
      by (intro conjI exI [of _ "VmbFrameAnnounce i # ys"]) simp_all
  next
    case True
    show ?thesis
    proof (cases "nat (ival ?rb) = 0")
      case z: True
      with assms True have e: "s1 = ?s3" "brk" "r1 = VmbErrorResources"
        by (simp_all add: alloc_and_announce_frame_def vmb_def Let_def)
      have r: "routes_of ?s3 = routes_of s"
        unfolding routes_of_set_buffer by simp
      have c: "calls ?s3 = calls s @ [VmbFeatureIntGet ''StreamBufferAlignment'', ?al]"
        by (simp add: set_frame_def)
      show ?thesis
        unfolding e using r c e(2)
        by (intro conjI exI [of _ "[VmbFeatureIntGet ''StreamBufferAlignment'', ?al]"]) simp_all
    next
      case nz: False
      with assms True have a: "announce_frame dev p i ?s3 = ((r1, brk), s1)"
        by (simp add: alloc_and_announce_frame_def vmb_def Let_def)
      from announce_frame_routes(1) [OF a] obtain ys where
        "calls s1 = calls ?s3 @ VmbFrameAnnounce i # ys" by blast
      then have c: "calls s1 = calls s @
           (VmbFeatureIntGet ''StreamBufferAlignment'' # ?al # VmbFrameAnnounce i # ys)"
        by (simp add: set_frame_def)
      have f: "filled_frame_queue ?s3 = filled_frame_queue s" by (simp add: set_frame_def)
      show ?thesis
        using c announce_frame_routes(2,3) [OF a] f
        by (intro conjI exI [of _ "VmbFeatureIntGet ''StreamBufferAlignment'' # ?al # VmbFrameAnnounce i # ys"])
           simp_all
    qed
  qed
  from all show "\<exists>ys. calls s1 = calls s @ ys \<and>
           ((\<forall>c \<in> set ys. \<not> is_announce c) \<longrightarrow> routes_of s1 = routes_of s)" by simp
  from all show "\<not> brk \<Longrightarrow> routes_of s1 i = filled_frame_queue s" by simp
  from all show "brk \<Longrightarrow> r1 \<noteq> VmbErrorSuccess" by simp
qed

lemma alloc_and_announce_loop_routes:
  "alloc_and_announce_loop dev p is (r, s) = (res, s') \<Longrightarrow>
   queues_of s' = queues_of s \<and>
   (\<exists>xs. calls s' = calls s @ xs \<and>
      ((\<forall>c \<in> set xs. \<not> is_announce c) \<longrightarrow> routes_of s' = routes_of s)) \<and>
   (res = VmbErrorSuccess \<and> distinct is \<longrightarrow>
      (\<forall>i \<in> set is. routes_of s' i = filled_frame_queue s))"
proof (induction "is" arbitrary: r s)
  case Nil
  then have "s' = s" by simp
  then show ?case by (intro conjI exI [of _ "[]"]) simp_all
next
  case (Cons i "is")
  obtain r1 brk s1 where b: "alloc_and_announce_frame dev p i s = ((r1, brk), s1)"
    by (metis surj_pair)
  have q1: "queues_of s1 = queues_of s"
    using queues_of_alloc_and_announce_frame [of dev p i s] b by simp
  from alloc_and_announce_frame_routes(1) [OF b]
  obtain ys where ys: "calls s1 = calls s @ ys"
    and yr: "(\<forall>c \<in> set ys. \<not> is_announce c) \<longrightarrow> routes_of s1 = routes_of s"
    by (elim exE conjE)
  show ?case
  proof (cases brk)
    case True
    with Cons.prems b have e: "s' = s1" "res = r1" by simp_all
    have ne: "res \<noteq> VmbErrorSuccess"
      using alloc_and_announce_frame_routes(3) [OF b True] e by simp
    show ?thesis
      using q1 ys yr ne e by (intro conjI exI [of _ ys]) simp_all
  next
    case False
    with Cons.prems b have l: "alloc_and_announce_loop dev p is (r1, s1) = (res, s')" by simp
    from Cons.IH [OF l] have q2: "queues_of s' = queues_of s1"
      and ex: "\<exists>xs. calls s' = calls s1 @ xs \<and>
          ((\<forall>c \<in> set xs. \<not> is_announce c) \<longrightarrow> routes_of s' = routes_of s1)"
      and ok: "res = VmbErrorSuccess \<and> distinct is \<longrightarrow>
          (\<forall>j \<in> set is. routes_of s' j = filled_frame_queue s1)"
      by simp_all
    from ex obtain xs where xs: "calls s' = calls s1 @ xs"
      and xr: "(\<forall>c \<in> set xs. \<not> is_announce c) \<longrightarrow> routes_of s' = routes_of s1"
      by (elim exE conjE)
    have f1: "filled_frame_queue s1 = filled_frame_queue s"
      using q1 by (simp add: queues_of_def)
    have ri: "routes_of s1 i = filled_frame_queue s"
      using alloc_and_announce_frame_routes(2) [OF b False] .
    have keep: "i \<notin> set is \<Longrightarrow> routes_of s' i = routes_of s1 i"
      using alloc_and_announce_loop_frame [OF l] by (simp add: routes_of_def)
    have c3: "res = VmbErrorSuccess \<and> distinct (i # is) \<longrightarrow>
          (\<forall>j \<in> set (i # is). routes_of s' j = filled_frame_queue s)"
      using ok f1 ri keep by simp
    have c2: "calls s' = calls s @ (ys @ xs) \<and>
          ((\<forall>c \<in> set (ys @ xs). \<not> is_announce c) \<longrightarrow> routes_of s' = routes_of s)"
      using ys xs yr xr by (simp add: ball_Un)
    show ?thesis
      using q1 q2 c2 c3 by (intro conjI exI [of _ "ys @ xs"]) simp_all
  qed
qed

lemma alloc_and_announce_buffers_routes:
  assumes "alloc_and_announce_buffers dev N s = (res, s')"
  shows "queues_of s' = queues_of s"
    and "\<exists>xs. calls s' = calls s @ xs \<and>
      ((\<forall>c \<in> set xs. \<not> is_announce c) \<longrightarrow> routes_of s' = routes_of s)"
    and "res = VmbErrorSuccess \<Longrightarrow> i < N \<Longrightarrow> routes_of s' i = filled_frame_queue s"
proof -
  let ?rp = "dev (calls s) VmbPayloadSizeGet"
  let ?s1 = "s\<lparr>calls := calls s @ [VmbPayloadSizeGet]\<rparr>"
  have v: "vmb dev VmbPayloadSizeGet s = (?rp, ?s1)" by (simp add: vmb_def)
  have all: "queues_of s' = queues_of s \<and>
    (\<exists>xs. calls s' = calls s @ xs \<and>
      ((\<forall>c \<in> set xs. \<not> is_announce c) \<longrightarrow> routes_of s' = routes_of s)) \<and>
    (res = VmbErrorSuccess \<longrightarrow> (\<forall>i<N. routes_of s' i = filled_frame_queue s))"
  proof (cases "rc ?rp = VmbErrorSuccess")
    case False
    with assms have e: "s' = ?s1" "res = rc ?rp"
      unfolding alloc_and_announce_buffers_def v by simp_all
    show ?thesis
      using e False
      by (intro conjI exI [of _ "[VmbPayloadSizeGet]"]) (simp_all add: queues_of_def)
  next
    case True
    with assms have l: "alloc_and_announce_loop dev (nat (ival ?rp)) [0..<N] (VmbErrorSuccess, ?s1) = (res, s')"
      unfolding alloc_and_announce_buffers_def v by simp
    from alloc_and_announce_loop_routes [OF l]
    have q: "queues_of s' = queues_of ?s1"
      and ex: "\<exists>xs. calls s' = calls ?s1 @ xs \<and>
          ((\<forall>c \<in> set xs. \<not> is_announce c) \<longrightarrow> routes_of s' = routes_of ?s1)"
      and ok: "res = VmbErrorSuccess \<and> distinct [0..<N] \<longrightarrow>
          (\<forall>j \<in> set [0..<N]. routes_of s' j = filled_frame_queue ?s1)"
      by simp_all
    from ex obtain xs where xs: "calls s' = calls ?s1 @ xs"
      and xr: "(\<forall>c \<in> set xs. \<not> is_announce c) \<longrightarrow> routes_of s' = routes_of ?s1"
      by (elim exE conjE)
    have c2: "calls s' = calls s @ (VmbPayloadSizeGet # xs) \<and>
          ((\<forall>c \<in> set (VmbPayloadSizeGet # xs). \<not> is_announce c) \<longrightarrow> routes_of s' = routes_of s)"
      using xs xr by simp
    show ?thesis
      using q c2 ok
      by (intro conjI exI [of _ "VmbPayloadSizeGet # xs"]) (simp_all add: queues_of_def)
  qed
  from all show "queues_of s' = queues_of s" by simp
  from all show "\<exists>xs. calls s' = calls s @ xs \<and>
      ((\<forall>c \<in> set xs. \<not> is_announce c) \<longrightarrow> routes_of s' = routes_of s)" by simp
  from all show "res = VmbErrorSuccess \<Longrightarrow> i < N \<Longrightarrow> routes_of s' i = filled_frame_queue s"
    by simp
qed

lemma queues_of_revoke_frame: "queues_of (revoke_frame dev i s) = queues_of s"
  by (simp add: revoke_frame_def vmb_def set_frame_def queues_of_def Let_def split_beta)

lemma queues_of_revoke_loop: "queues_of (revoke_loop dev is s) = queues_of s"
  by (induction "is" arbitrary: s) (simp_all add: queues_of_revoke_frame)

lemma revoke_without_calls:
  assumes "\<forall>c \<in> set (concat (map (revoke_calls s) [0..<N])). \<not> is_revoke c"
  shows "revoke_and_free_buffers dev N s = s"
  unfolding revoke_and_free_buffers_def
proof (rule revoke_loop_null, rule ballI)
  fix i assume i: "i \<in> set [0..<N]"
  show "buffer (frame_buffers s i) = 0"
  proof (rule ccontr)
    assume "buffer (frame_buffers s i) \<noteq> 0"
    then have "VmbFrameRevoke i \<in> set (revoke_calls s i)"
      by (simp add: revoke_calls_def)
    with i have "VmbFrameRevoke i \<in> set (concat (map (revoke_calls s) [0..<N]))"
      by auto
    with assms show False by force
  qed
qed

lemma routes_of_is_acquiring [simp]: "routes_of (s\<lparr>is_acquiring := b\<rparr>) = routes_of s"
  by (simp add: routes_of_def fun_eq_iff)

lemma queues_of_is_acquiring [simp]: "queues_of (s\<lparr>is_acquiring := b\<rparr>) = queues_of s"
  by (simp add: queues_of_def)

lemma acquisition_call_not_pool:
  "is_acquisition_call c \<Longrightarrow> \<not> is_revoke c \<and> \<not> is_announce c"
  by (cases c) simp_all

lemma set_caps_resume_routes:
  assumes "set_caps_resume dev N caps (r, s) = Some (ok, s')"
  shows "\<exists>xs. calls s' = calls s @ xs \<and> (\<forall>c \<in> set xs. is_acquisition_call c) \<and>
           queues_of s' = queues_of s \<and> routes_of s' = routes_of s \<and>
           frame_buffers s' = frame_buffers s"
proof (cases "r = VmbErrorSuccess")
  case False
  with assms have "s' = s" by (simp add: set_caps_resume_def)
  then show ?thesis by (intro exI [of _ "[]"]) simp
next
  case True
  with assms obtain res where st: "start_image_acquisition dev N s = Some (res, s')"
    by (auto simp: set_caps_resume_def split: option.splits)
  from start_image_acquisition_result [OF st] obtain xs b where
    e: "s' = s\<lparr>is_acquiring := b, calls := calls s @ xs\<rparr>"
    and a: "\<forall>c \<in> set xs. is_acquisition_call c" by (elim exE conjE)
  show ?thesis
    by (intro exI [of _ xs]) (simp add: e a)
qed

lemma set_caps_buffers_routes:
  assumes "set_caps_buffers dev N caps s = Some (ok, s')"
  shows "queues_of s' = queues_of s \<and>
         (\<exists>xs. calls s' = calls s @ xs \<and>
            ((\<forall>c \<in> set xs. \<not> is_revoke c \<and> \<not> is_announce c) \<longrightarrow> routes_of s' = routes_of s))"
proof -
  let ?rp = "dev (calls s) VmbPayloadSizeGet"
  let ?s1 = "s\<lparr>calls := calls s @ [VmbPayloadSizeGet]\<rparr>"
  have v: "vmb dev VmbPayloadSizeGet s = (?rp, ?s1)" by (simp add: vmb_def)
  show ?thesis
  proof (cases "realloc_needed ?s1 ?rp")
    case False
    with assms have "set_caps_resume dev N caps (rc ?rp, ?s1) = Some (ok, s')"
      unfolding set_caps_buffers_def v by simp
    from set_caps_resume_routes [OF this] obtain xs where
      c: "calls s' = calls ?s1 @ xs" and q: "queues_of s' = queues_of ?s1"
      and r: "routes_of s' = routes_of ?s1" by (elim exE conjE)
    show ?thesis
      using c q r by (intro conjI exI [of _ "VmbPayloadSizeGet # xs"]) simp_all
  next
    case True
    let ?sr = "revoke_and_free_buffers dev N ?s1"
    obtain ra sa where al: "alloc_and_announce_buffers dev N ?sr = (ra, sa)"
      by (rule prod.exhaust)
    from assms True have "set_caps_resume dev N caps (ra, sa) = Some (ok, s')"
      unfolding set_caps_buffers_def v using al by simp
    from set_caps_resume_routes [OF this] obtain zs where
      c3: "calls s' = calls sa @ zs" and q3: "queues_of s' = queues_of sa"
      and r3: "routes_of s' = routes_of sa" by (elim exE conjE)
    from alloc_and_announce_buffers_routes(2) [OF al] obtain ys where
      c2: "calls sa = calls ?sr @ ys"
      and r2: "(\<forall>c \<in> set ys. \<not> is_announce c) \<longrightarrow> routes_of sa = routes_of ?sr"
      by (elim exE conjE)
    have q2: "queues_of sa = queues_of ?sr"
      using alloc_and_announce_buffers_routes(1) [OF al] .
    let ?cr = "concat (map (revoke_calls ?s1) [0..<N])"
    have c1: "calls ?sr = calls ?s1 @ ?cr"
      by (simp add: revoke_and_free_buffers_def calls_revoke_loop)
    have q1: "queues_of ?sr = queues_of s"
      by (simp add: revoke_and_free_buffers_def queues_of_revoke_loop)
    have r1: "(\<forall>c \<in> set ?cr. \<not> is_revoke c) \<longrightarrow> routes_of ?sr = routes_of s"
    proof
      assume "\<forall>c \<in> set ?cr. \<not> is_revoke c"
      then have "?sr = ?s1" by (rule revoke_without_calls)
      then show "routes_of ?sr = routes_of s" by simp
    qed
    have call: "calls s' = calls s @ (VmbPayloadSizeGet # ?cr @ ys @ zs)"
      using c1 c2 c3 by simp
    have rall: "(\<forall>c \<in> set (VmbPayloadSizeGet # ?cr @ ys @ zs). \<not> is_revoke c \<and> \<not> is_announce c)
         \<longrightarrow> routes_of s' = routes_of s"
      using r1 r2 r3 by (simp add: ball_Un)
    have qall: "queues_of s' = queues_of s" using q1 q2 q3 by simp
    show ?thesis
      using call rall qall
      by (intro conjI exI [of _ "VmbPayloadSizeGet # ?cr @ ys @ zs"]) blast+
  qed
qed

lemma replace_filled_frame_queue_Some:
  assumes "filled_frame_queue s = Some q"
  shows "queues_of (replace_filled_frame_queue s) =
           (Some (queue_addr s (queue_count s)),
            (queue_store s)(queue_addr s (queue_count s) := []),
            insert (queue_addr s (queue_count s)) (queue_live s - {q}),
            queue_addr s, Suc (queue_count s))"
    and "routes_of (replace_filled_frame_queue s) = routes_of s"
    and "calls (replace_filled_frame_queue s) = calls s"
    and "frame_buffers (replace_filled_frame_queue s) = frame_buffers s"
  using assms
  by (simp_all add: replace_filled_frame_queue_def g_async_queue_new_def g_async_queue_unref_def
        queues_of_def routes_of_def fun_eq_iff)

lemma wait_command_done_dev_payload_4096:
  "wait_command_done dev_payload_4096 n s = Some (s\<lparr>calls := calls s @ [VmbFeatureCommandIsDone n]\<rparr>)"
  by (subst wait_command_done.simps) (simp add: vmb_def answer_def)

lemma wait_command_done_dev_payload_8192:
  "wait_command_done dev_payload_8192 n s = Some (s\<lparr>calls := calls s @ [VmbFeatureCommandIsDone n]\<rparr>)"
  by (subst wait_command_done.simps) (simp add: vmb_def answer_def)

lemma set_caps_example_4096:
  "\<exists>s'. gst_vmbsrc_set_caps dev_payload_4096 1 caps_gray src_streaming = Some (True, s') \<and>
     calls s' =
       [VmbFeatureCommandRun ''AcquisitionStop'', VmbFeatureCommandIsDone ''AcquisitionStop'',
        VmbCaptureEnd, VmbCaptureQueueFlush, VmbFeatureEnumSet ''PixelFormat'' ''Mono8'',
        VmbPayloadSizeGet, VmbCaptureStart, VmbCaptureFrameQueue 0,
        VmbFeatureCommandRun ''AcquisitionStart'', VmbFeatureCommandIsDone ''AcquisitionStart'']
     \<and> queue_store s' 1 = []"
  by (simp add: gst_vmbsrc_set_caps_def set_caps_buffers_def set_caps_resume_def realloc_needed_def
        stop_image_acquisition_def start_image_acquisition_def
        wait_command_done_dev_payload_4096 replace_filled_frame_queue_def
        g_async_queue_new_def g_async_queue_unref_def no_queues_def
        vmb_def answer_def caps_gray_def src_streaming_def src_init_def streaming_frames_def)

lemma negotiated_example:
  "fst (alloc_and_announce_buffers dev_payload_4096 1 src_started) = VmbErrorSuccess"
  "frame_buffers (negotiated src_started) =
     frame_buffers (snd (alloc_and_announce_buffers dev_payload_4096 1 src_started))"
  "filled_frame_queue (negotiated src_started) = Some 1"
  "supported_formats (negotiated src_started) = supported_formats src_init"
  "queue_addr (negotiated src_started) = Suc"
  "queue_count (negotiated src_started) = 1"
  by (simp_all add: negotiated_def src_started_def src_init_def
        alloc_and_announce_buffers_def alloc_and_announce_frame_def announce_frame_def
        start_image_acquisition_def wait_command_done_dev_payload_4096
        set_frame_def vmb_def answer_def Let_def)

lemma set_caps_example_negotiated:
  "\<exists>s'. gst_vmbsrc_set_caps dev_payload_4096 1 caps_gray (negotiated src_started) =
       Some (True, s') \<and>
     new_calls (negotiated src_started) s' =
       [VmbFeatureCommandRun ''AcquisitionStop'', VmbFeatureCommandIsDone ''AcquisitionStop'',
        VmbCaptureEnd, VmbCaptureQueueFlush, VmbFeatureEnumSet ''PixelFormat'' ''Mono8'',
        VmbPayloadSizeGet, VmbCaptureStart, VmbCaptureFrameQueue 0,
        VmbFeatureCommandRun ''AcquisitionStart'', VmbFeatureCommandIsDone ''AcquisitionStart'']
     \<and> queue_store s' 1 = []"
  by (simp add: gst_vmbsrc_set_caps_def set_caps_buffers_def set_caps_resume_def realloc_needed_def
        stop_image_acquisition_def start_image_acquisition_def
        alloc_and_announce_buffers_def alloc_and_announce_frame_def announce_frame_def
        set_frame_def Let_def new_calls_def negotiated_def src_started_def
        wait_command_done_dev_payload_4096 replace_filled_frame_queue_def
        g_async_queue_new_def g_async_queue_unref_def no_queues_def
        vmb_def answer_def caps_gray_def src_init_def)

text \<open>
  C10, as amended. alloc_and_announce_buffers writes the address of the
  element's current queue into context[0] of every descriptor it announces.
  Take the element later, with context[0] of the descriptors and the queue
  as the allocation left them, and a run of gst_vmbsrc_set_caps that finds
  the format and neither revokes nor announces a frame. The run releases the queue and
  makes a new one, at the address the allocator chooses; context[0] of
  every descriptor still holds the address of the released queue, and the
  callback pushes the frame to that address. If the new queue lies at
  another address, the push goes into the released object, the new queue
  stays empty and the pop of gst_vmbsrc_create finds nothing. If the
  allocator has given the new queue the address just released, the push
  lands in the new queue and the pop returns the frame.
\<close>

theorem set_caps_leaves_frames_on_old_queue:
  assumes al: "alloc_and_announce_buffers dev N t = (VmbErrorSuccess, s0)"
    and qt: "filled_frame_queue t = Some q"
    and pool_kept: "\<forall>j<N. routes_of s j = routes_of s0 j"
    and queue_kept: "filled_frame_queue s = Some q"
    and fmt: "find_vimbax_format (supported_formats s) (caps_format caps) = Some vf"
    and run: "gst_vmbsrc_set_caps dev N caps s = Some (ok, s')"
    and pool: "\<forall>c \<in> set (new_calls s s'). \<not> is_revoke c \<and> \<not> is_announce c"
    and iN: "i < N"
  shows "(\<forall>j<N. routes_of s0 j = Some q)
       \<and> filled_frame_queue s' = Some (queue_addr s (queue_count s))
       \<and> queue_store s' (queue_addr s (queue_count s)) = []
       \<and> (\<forall>j<N. routes_of s' j = Some q)
       \<and> queue_store (vimbax_frame_callback i s') q = queue_store s' q @ [i]
       \<and> (queue_addr s (queue_count s) \<noteq> q \<longrightarrow>
            q \<notin> queue_live s' \<and>
            queue_store (vimbax_frame_callback i s') (queue_addr s (queue_count s)) = [] \<and>
            fst (g_async_queue_timeout_pop (vimbax_frame_callback i s')) = None)
       \<and> (queue_addr s (queue_count s) = q \<longrightarrow>
            fst (g_async_queue_timeout_pop (vimbax_frame_callback i s')) = Some i)"
proof -
  let ?q' = "queue_addr s (queue_count s)"
  have r0: "\<forall>j<N. routes_of s0 j = Some q"
    using alloc_and_announce_buffers_routes(3) [OF al] qt by simp
  have rs: "\<forall>j<N. routes_of s j = Some q"
    using pool_kept r0 by simp
  from run fmt obtain r0 s1 where stop: "stop_image_acquisition dev s = Some (r0, s1)"
    by (auto simp: gst_vmbsrc_set_caps_def split: option.splits)
  from stop_image_acquisition_result [OF stop] obtain xs0 where
    e1: "s1 = s\<lparr>is_acquiring := False, calls := calls s @ xs0\<rparr>"
    and a0: "\<forall>c \<in> set xs0. is_acquisition_call c" by (elim exE conjE)
  have q1: "filled_frame_queue s1 = Some q" using e1 queue_kept by simp
  let ?s2 = "replace_filled_frame_queue s1"
  let ?c = "VmbFeatureEnumSet ''PixelFormat'' vf"
  let ?rf = "dev (calls ?s2) ?c"
  let ?s3 = "?s2\<lparr>calls := calls ?s2 @ [?c]\<rparr>"
  have v: "vmb dev ?c ?s2 = (?rf, ?s3)" by (simp add: vmb_def)
  note rep = replace_filled_frame_queue_Some [OF q1]
  have qs3: "queues_of ?s3 =
           (Some ?q', (queue_store s)(?q' := []),
            insert ?q' (queue_live s - {q}), queue_addr s, Suc (queue_count s))"
    using rep(1) e1 by simp
  have rs3: "routes_of ?s3 = routes_of s" using rep(2) e1 by simp
  have cs3: "calls ?s3 = calls s @ xs0 @ [?c]" using rep(3) e1 by simp
  have fin: "queues_of s' = queues_of ?s3 \<and> routes_of s' = routes_of ?s3"
  proof (cases "rc ?rf = VmbErrorSuccess")
    case False
    with run fmt stop have "s' = ?s3"
      unfolding gst_vmbsrc_set_caps_def using v by simp
    then show ?thesis by simp
  next
    case True
    with run fmt stop have b: "set_caps_buffers dev N caps ?s3 = Some (ok, s')"
      unfolding gst_vmbsrc_set_caps_def using v by simp
    from set_caps_buffers_routes [OF b] obtain xs where
      qq: "queues_of s' = queues_of ?s3" and c: "calls s' = calls ?s3 @ xs"
      and r: "(\<forall>c \<in> set xs. \<not> is_revoke c \<and> \<not> is_announce c) \<longrightarrow> routes_of s' = routes_of ?s3"
      by (elim exE conjE)
    have "new_calls s s' = xs0 @ [?c] @ xs"
      using c cs3 by (simp add: new_calls_def)
    with pool have "\<forall>c \<in> set xs. \<not> is_revoke c \<and> \<not> is_announce c" by simp
    with r qq show ?thesis by simp
  qed
  have f1: "filled_frame_queue s' = Some ?q'"
    and f2: "queue_store s' = (queue_store s)(?q' := [])"
    and f3: "queue_live s' = insert ?q' (queue_live s - {q})"
    using fin qs3 by (simp_all add: queues_of_def)
  have r': "\<forall>j<N. routes_of s' j = Some q"
    using fin rs3 rs by simp
  then have f4: "context0 (frame_buffers s' i) = Some q"
    using iN by (simp add: routes_of_def)
  show ?thesis
    using r0 r' f1 f2 f3 f4
    by (simp add: vimbax_frame_callback_def g_async_queue_push_def
          g_async_queue_timeout_pop_def)
qed

theorem set_caps_leaves_frames_on_old_queue_witness:
  "routes_of (snd (alloc_and_announce_buffers dev_payload_4096 1 src_started)) 0 = Some 1
   \<and> filled_frame_queue
       (snd (the (gst_vmbsrc_set_caps dev_payload_4096 1 caps_gray (negotiated src_started))))
     = Some 2
   \<and> routes_of
       (snd (the (gst_vmbsrc_set_caps dev_payload_4096 1 caps_gray (negotiated src_started)))) 0
     = Some 1
   \<and> queue_store (vimbax_frame_callback 0
         (snd (the (gst_vmbsrc_set_caps dev_payload_4096 1 caps_gray (negotiated src_started))))) 1
     = [0]
   \<and> queue_store (vimbax_frame_callback 0
         (snd (the (gst_vmbsrc_set_caps dev_payload_4096 1 caps_gray (negotiated src_started))))) 2
     = []
   \<and> fst (g_async_queue_timeout_pop (vimbax_frame_callback 0
         (snd (the (gst_vmbsrc_set_caps dev_payload_4096 1 caps_gray (negotiated src_started))))))
     = None"
proof -
  from set_caps_example_negotiated obtain s' where
    run: "gst_vmbsrc_set_caps dev_payload_4096 1 caps_gray (negotiated src_started) = Some (True, s')"
    and c: "new_calls (negotiated src_started) s' =
       [VmbFeatureCommandRun ''AcquisitionStop'', VmbFeatureCommandIsDone ''AcquisitionStop'',
        VmbCaptureEnd, VmbCaptureQueueFlush, VmbFeatureEnumSet ''PixelFormat'' ''Mono8'',
        VmbPayloadSizeGet, VmbCaptureStart, VmbCaptureFrameQueue 0,
        VmbFeatureCommandRun ''AcquisitionStart'', VmbFeatureCommandIsDone ''AcquisitionStart'']"
    and st: "queue_store s' 1 = []"
    by (elim exE conjE)
  note ex = negotiated_example
  have al: "alloc_and_announce_buffers dev_payload_4096 1 src_started =
      (VmbErrorSuccess, snd (alloc_and_announce_buffers dev_payload_4096 1 src_started))"
    using ex(1) by (simp add: prod_eq_iff)
  have qt: "filled_frame_queue src_started = Some 1"
    by (simp add: src_started_def)
  have fmt: "find_vimbax_format (supported_formats (negotiated src_started)) (caps_format caps_gray)
      = Some ''Mono8''"
    by (simp add: ex(4) src_init_def caps_gray_def)
  have pool: "\<forall>c \<in> set (new_calls (negotiated src_started) s'). \<not> is_revoke c \<and> \<not> is_announce c"
    by (simp add: c)
  have kept: "\<forall>j<1. routes_of (negotiated src_started) j =
      routes_of (snd (alloc_and_announce_buffers dev_payload_4096 1 src_started)) j"
    by (simp add: routes_of_def ex(2))
  have e: "snd (the (gst_vmbsrc_set_caps dev_payload_4096 1 caps_gray (negotiated src_started))) = s'"
    unfolding run by simp
  from set_caps_leaves_frames_on_old_queue [OF al qt kept ex(3) fmt run pool, of 0] st ex(5) ex(6)
  show ?thesis unfolding e by (simp add: numeral_2_eq_2)
qed

text \<open>
  The claim as stated fails when the allocator gives the new queue the
  address of the queue just released. The frames were announced with the
  queue at address 1; set_caps releases it and makes the second queue,
  again at address 1; descriptor 0 still routes to address 1, which now is
  the new queue, so the callback pushes the frame into the new queue and
  the pop returns it.
\<close>

theorem set_caps_queue_reuse_counterexample:
  "routes_of (snd (alloc_and_announce_buffers dev_payload_4096 1 src_started_reuse)) 0 = Some 1
   \<and> map_option (\<lambda>p. (fst p, filled_frame_queue (snd p), queue_count (snd p), routes_of (snd p) 0,
                        1 \<in> queue_live (snd p),
                        fst (g_async_queue_timeout_pop (vimbax_frame_callback 0 (snd p)))))
       (gst_vmbsrc_set_caps dev_payload_4096 1 caps_gray (negotiated src_started_reuse))
     = Some (True, Some 1, 2, Some 1, True, Some 0)"
  by (simp add: gst_vmbsrc_set_caps_def set_caps_buffers_def set_caps_resume_def realloc_needed_def
        stop_image_acquisition_def start_image_acquisition_def
        alloc_and_announce_buffers_def alloc_and_announce_frame_def announce_frame_def
        set_frame_def Let_def negotiated_def src_started_reuse_def src_started_def
        wait_command_done_dev_payload_4096 replace_filled_frame_queue_def
        g_async_queue_new_def g_async_queue_unref_def no_queues_def routes_of_def
        vimbax_frame_callback_def g_async_queue_push_def g_async_queue_timeout_pop_def
        vmb_def answer_def caps_gray_def src_init_def)

lemma alloc_and_announce_buffers_calls:
  "\<exists>xs. calls (snd (alloc_and_announce_buffers dev N s)) = calls s @ VmbPayloadSizeGet # xs"
proof -
  obtain res s' where al: "alloc_and_announce_buffers dev N s = (res, s')" by (rule prod.exhaust)
  let ?rp = "dev (calls s) VmbPayloadSizeGet"
  let ?s1 = "s\<lparr>calls := calls s @ [VmbPayloadSizeGet]\<rparr>"
  have v: "vmb dev VmbPayloadSizeGet s = (?rp, ?s1)" by (simp add: vmb_def)
  show ?thesis
  proof (cases "rc ?rp = VmbErrorSuccess")
    case False
    with al have "s' = ?s1" unfolding alloc_and_announce_buffers_def v by simp
    then show ?thesis unfolding al by (intro exI [of _ "[]"]) simp
  next
    case True
    with al have l: "alloc_and_announce_loop dev (nat (ival ?rp)) [0..<N] (VmbErrorSuccess, ?s1) = (res, s')"
      unfolding alloc_and_announce_buffers_def v by simp
    from alloc_and_announce_loop_routes [OF l] obtain xs where "calls s' = calls ?s1 @ xs"
      by (elim exE conjE)
    then show ?thesis unfolding al by (intro exI [of _ xs]) simp
  qed
qed

text \<open>
  C3. Once gst_vmbsrc_set_caps has found the format, stopped the
  acquisition, set PixelFormat and asked for the payload size: if the
  payload size is larger than bufferSize of the first descriptor, or could
  not be read, the rest of the call is revoke_and_free_buffers, then
  alloc_and_announce_buffers, then the restart, and the calls made are
  those of the revoke followed by those of the allocation, which begin with
  its own read of the payload size; if the payload size was read and is at
  most that bufferSize, the rest of the call is the restart alone: no
  descriptor changes and only acquisition calls are made.
\<close>

theorem set_caps_reallocates_iff_needed:
  assumes fmt: "find_vimbax_format (supported_formats s) (caps_format caps) = Some vf"
    and stop: "stop_image_acquisition dev s = Some (r0, s1)"
    and fset: "vmb dev (VmbFeatureEnumSet ''PixelFormat'' vf) (replace_filled_frame_queue s1) = (rf, s2)"
    and fok: "rc rf = VmbErrorSuccess"
    and pay: "vmb dev VmbPayloadSizeGet s2 = (rp, s3)"
  shows "(bufferSize (frame_buffers s 0) < nat (ival rp) \<or> rc rp \<noteq> VmbErrorSuccess \<longrightarrow>
            gst_vmbsrc_set_caps dev N caps s =
              set_caps_resume dev N caps
                (alloc_and_announce_buffers dev N (revoke_and_free_buffers dev N s3))
            \<and> (\<forall>ok s'. gst_vmbsrc_set_caps dev N caps s = Some (ok, s') \<longrightarrow>
                  (\<exists>xs. new_calls s3 s' =
                     concat (map (revoke_calls s3) [0..<N]) @ VmbPayloadSizeGet # xs)))
       \<and> (rc rp = VmbErrorSuccess \<and> nat (ival rp) \<le> bufferSize (frame_buffers s 0) \<longrightarrow>
            gst_vmbsrc_set_caps dev N caps s = set_caps_resume dev N caps (VmbErrorSuccess, s3)
            \<and> (\<forall>ok s'. gst_vmbsrc_set_caps dev N caps s = Some (ok, s') \<longrightarrow>
                  frame_buffers s' = frame_buffers s \<and>
                  (\<forall>c \<in> set (new_calls s3 s'). is_acquisition_call c)))"
proof -
  from stop_image_acquisition_result [OF stop] obtain xs0 where
    e1: "s1 = s\<lparr>is_acquiring := False, calls := calls s @ xs0\<rparr>" by (elim exE conjE)
  have fb1: "frame_buffers s1 = frame_buffers s" using e1 by simp
  have fb2: "frame_buffers s2 = frame_buffers s"
    using fset fb1
    by (auto simp: vmb_def replace_filled_frame_queue_def g_async_queue_new_def
          g_async_queue_unref_def split: option.splits)
  have fb3: "frame_buffers s3 = frame_buffers s"
    using pay fb2 by (auto simp: vmb_def)
  have main: "gst_vmbsrc_set_caps dev N caps s =
      set_caps_resume dev N caps
        (if realloc_needed s3 rp
         then alloc_and_announce_buffers dev N (revoke_and_free_buffers dev N s3)
         else (rc rp, s3))"
    unfolding gst_vmbsrc_set_caps_def set_caps_buffers_def
    using fmt stop fset fok pay by simp
  have rn: "realloc_needed s3 rp \<longleftrightarrow>
      bufferSize (frame_buffers s 0) < nat (ival rp) \<or> rc rp \<noteq> VmbErrorSuccess"
    by (simp add: realloc_needed_def fb3)
  show ?thesis
  proof (intro conjI impI allI)
    assume a: "bufferSize (frame_buffers s 0) < nat (ival rp) \<or> rc rp \<noteq> VmbErrorSuccess"
    with main rn show eq: "gst_vmbsrc_set_caps dev N caps s =
              set_caps_resume dev N caps
                (alloc_and_announce_buffers dev N (revoke_and_free_buffers dev N s3))"
      by simp
    fix ok s'
    assume r: "gst_vmbsrc_set_caps dev N caps s = Some (ok, s')"
    let ?sr = "revoke_and_free_buffers dev N s3"
    obtain ra sa where al: "alloc_and_announce_buffers dev N ?sr = (ra, sa)" by (rule prod.exhaust)
    from r eq al have "set_caps_resume dev N caps (ra, sa) = Some (ok, s')" by simp
    from set_caps_resume_routes [OF this] obtain zs where c3: "calls s' = calls sa @ zs"
      by (elim exE conjE)
    from alloc_and_announce_buffers_calls [of dev N ?sr] al obtain ys where
      c2: "calls sa = calls ?sr @ VmbPayloadSizeGet # ys" by auto
    have c1: "calls ?sr = calls s3 @ concat (map (revoke_calls s3) [0..<N])"
      by (simp add: revoke_and_free_buffers_def calls_revoke_loop)
    show "\<exists>xs. new_calls s3 s' = concat (map (revoke_calls s3) [0..<N]) @ VmbPayloadSizeGet # xs"
      by (intro exI [of _ "ys @ zs"]) (simp add: new_calls_def c1 c2 c3)
  next
    assume a: "rc rp = VmbErrorSuccess \<and> nat (ival rp) \<le> bufferSize (frame_buffers s 0)"
    with main rn show eq: "gst_vmbsrc_set_caps dev N caps s =
        set_caps_resume dev N caps (VmbErrorSuccess, s3)"
      by auto
    fix ok s'
    assume r: "gst_vmbsrc_set_caps dev N caps s = Some (ok, s')"
    with eq have "set_caps_resume dev N caps (VmbErrorSuccess, s3) = Some (ok, s')" by simp
    from set_caps_resume_routes [OF this] obtain xs where c: "calls s' = calls s3 @ xs"
      and ac: "\<forall>c \<in> set xs. is_acquisition_call c"
      and fb: "frame_buffers s' = frame_buffers s3" by (elim exE conjE)
    show "frame_buffers s' = frame_buffers s" using fb fb3 by simp
    show "\<forall>c \<in> set (new_calls s3 s'). is_acquisition_call c"
      using c ac by (simp add: new_calls_def)
  qed
qed


lemma set_caps_example_8192:
  "\<exists>s'. gst_vmbsrc_set_caps dev_payload_8192 1 caps_gray src_streaming = Some (True, s') \<and>
     calls s' =
       [VmbFeatureCommandRun ''AcquisitionStop'', VmbFeatureCommandIsDone ''AcquisitionStop'',
        VmbCaptureEnd, VmbCaptureQueueFlush, VmbFeatureEnumSet ''PixelFormat'' ''Mono8'',
        VmbPayloadSizeGet, VmbFrameRevoke 0, VmbAlignedFree 1000,
        VmbPayloadSizeGet, VmbFeatureIntGet ''StreamBufferAlignment'', VmbAlignedAlloc 1 8192,
        VmbFrameAnnounce 0, VmbCaptureStart, VmbCaptureFrameQueue 0,
        VmbFeatureCommandRun ''AcquisitionStart'', VmbFeatureCommandIsDone ''AcquisitionStart'']
     \<and> bufferSize (frame_buffers s' 0) = 8192"
  by (simp add: gst_vmbsrc_set_caps_def set_caps_buffers_def set_caps_resume_def realloc_needed_def
        stop_image_acquisition_def start_image_acquisition_def
        alloc_and_announce_buffers_def alloc_and_announce_frame_def announce_frame_def
        revoke_and_free_buffers_def revoke_frame_def set_frame_def Let_def
        wait_command_done_dev_payload_8192 replace_filled_frame_queue_def
        g_async_queue_new_def g_async_queue_unref_def no_queues_def
        vmb_def answer_def caps_gray_def src_streaming_def src_init_def streaming_frames_def)

theorem set_caps_reallocates_iff_needed_witness:
  "map_option (\<lambda>p. (fst p, calls (snd p), bufferSize (frame_buffers (snd p) 0)))
     (gst_vmbsrc_set_caps dev_payload_4096 1 caps_gray src_streaming) =
   Some (True,
       [VmbFeatureCommandRun ''AcquisitionStop'', VmbFeatureCommandIsDone ''AcquisitionStop'',
        VmbCaptureEnd, VmbCaptureQueueFlush, VmbFeatureEnumSet ''PixelFormat'' ''Mono8'',
        VmbPayloadSizeGet, VmbCaptureStart, VmbCaptureFrameQueue 0,
        VmbFeatureCommandRun ''AcquisitionStart'', VmbFeatureCommandIsDone ''AcquisitionStart''],
       4096)
   \<and> map_option (\<lambda>p. (fst p, calls (snd p), bufferSize (frame_buffers (snd p) 0)))
     (gst_vmbsrc_set_caps dev_payload_8192 1 caps_gray src_streaming) =
   Some (True,
       [VmbFeatureCommandRun ''AcquisitionStop'', VmbFeatureCommandIsDone ''AcquisitionStop'',
        VmbCaptureEnd, VmbCaptureQueueFlush, VmbFeatureEnumSet ''PixelFormat'' ''Mono8'',
        VmbPayloadSizeGet, VmbFrameRevoke 0, VmbAlignedFree 1000,
        VmbPayloadSizeGet, VmbFeatureIntGet ''StreamBufferAlignment'', VmbAlignedAlloc 1 8192,
        VmbFrameAnnounce 0, VmbCaptureStart, VmbCaptureFrameQueue 0,
        VmbFeatureCommandRun ''AcquisitionStart'', VmbFeatureCommandIsDone ''AcquisitionStart''],
       8192)"
proof -
  have fmt: "find_vimbax_format (supported_formats src_streaming) (caps_format caps_gray) = Some ''Mono8''"
    by (simp add: src_streaming_def src_init_def caps_gray_def)
  have sz: "bufferSize (frame_buffers src_streaming 0) = 4096"
    by (simp add: src_streaming_def streaming_frames_def)
  have small: "map_option (\<lambda>p. (fst p, calls (snd p), bufferSize (frame_buffers (snd p) 0)))
     (gst_vmbsrc_set_caps dev_payload_4096 1 caps_gray src_streaming) =
   Some (True,
       [VmbFeatureCommandRun ''AcquisitionStop'', VmbFeatureCommandIsDone ''AcquisitionStop'',
        VmbCaptureEnd, VmbCaptureQueueFlush, VmbFeatureEnumSet ''PixelFormat'' ''Mono8'',
        VmbPayloadSizeGet, VmbCaptureStart, VmbCaptureFrameQueue 0,
        VmbFeatureCommandRun ''AcquisitionStart'', VmbFeatureCommandIsDone ''AcquisitionStart''],
       4096)"
  proof -
    from set_caps_example_4096 obtain s' where
      run: "gst_vmbsrc_set_caps dev_payload_4096 1 caps_gray src_streaming = Some (True, s')"
      and c: "calls s' =
       [VmbFeatureCommandRun ''AcquisitionStop'', VmbFeatureCommandIsDone ''AcquisitionStop'',
        VmbCaptureEnd, VmbCaptureQueueFlush, VmbFeatureEnumSet ''PixelFormat'' ''Mono8'',
        VmbPayloadSizeGet, VmbCaptureStart, VmbCaptureFrameQueue 0,
        VmbFeatureCommandRun ''AcquisitionStart'', VmbFeatureCommandIsDone ''AcquisitionStart'']"
      by (elim exE conjE)
    from run fmt obtain r0 s1 where stop: "stop_image_acquisition dev_payload_4096 src_streaming = Some (r0, s1)"
      by (auto simp: gst_vmbsrc_set_caps_def split: option.splits)
    obtain rf s2 where fset: "vmb dev_payload_4096 (VmbFeatureEnumSet ''PixelFormat'' ''Mono8'')
        (replace_filled_frame_queue s1) = (rf, s2)" by (rule prod.exhaust)
    then have fok: "rc rf = VmbErrorSuccess" by (auto simp: vmb_def answer_def)
    obtain rp s3 where pay: "vmb dev_payload_4096 VmbPayloadSizeGet s2 = (rp, s3)" by (rule prod.exhaust)
    then have p: "rc rp = VmbErrorSuccess" "ival rp = 4096" by (auto simp: vmb_def answer_def)
    from set_caps_reallocates_iff_needed [OF fmt stop fset fok pay, of 1] p sz run
    have "frame_buffers s' = frame_buffers src_streaming" by simp
    with run c sz show ?thesis by simp
  qed
  have big: "map_option (\<lambda>p. (fst p, calls (snd p), bufferSize (frame_buffers (snd p) 0)))
     (gst_vmbsrc_set_caps dev_payload_8192 1 caps_gray src_streaming) =
   Some (True,
       [VmbFeatureCommandRun ''AcquisitionStop'', VmbFeatureCommandIsDone ''AcquisitionStop'',
        VmbCaptureEnd, VmbCaptureQueueFlush, VmbFeatureEnumSet ''PixelFormat'' ''Mono8'',
        VmbPayloadSizeGet, VmbFrameRevoke 0, VmbAlignedFree 1000,
        VmbPayloadSizeGet, VmbFeatureIntGet ''StreamBufferAlignment'', VmbAlignedAlloc 1 8192,
        VmbFrameAnnounce 0, VmbCaptureStart, VmbCaptureFrameQueue 0,
        VmbFeatureCommandRun ''AcquisitionStart'', VmbFeatureCommandIsDone ''AcquisitionStart''],
       8192)"
  proof -
    from set_caps_example_8192 obtain s' where
      run: "gst_vmbsrc_set_caps dev_payload_8192 1 caps_gray src_streaming = Some (True, s')"
      and c: "calls s' =
       [VmbFeatureCommandRun ''AcquisitionStop'', VmbFeatureCommandIsDone ''AcquisitionStop'',
        VmbCaptureEnd, VmbCaptureQueueFlush, VmbFeatureEnumSet ''PixelFormat'' ''Mono8'',
        VmbPayloadSizeGet, VmbFrameRevoke 0, VmbAlignedFree 1000,
        VmbPayloadSizeGet, VmbFeatureIntGet ''StreamBufferAlignment'', VmbAlignedAlloc 1 8192,
        VmbFrameAnnounce 0, VmbCaptureStart, VmbCaptureFrameQueue 0,
        VmbFeatureCommandRun ''AcquisitionStart'', VmbFeatureCommandIsDone ''AcquisitionStart'']"
      and b: "bufferSize (frame_buffers s' 0) = 8192"
      by (elim exE conjE)
    from run fmt obtain r0 s1 where stop: "stop_image_acquisition dev_payload_8192 src_streaming = Some (r0, s1)"
      by (auto simp: gst_vmbsrc_set_caps_def split: option.splits)
    obtain rf s2 where fset: "vmb dev_payload_8192 (VmbFeatureEnumSet ''PixelFormat'' ''Mono8'')
        (replace_filled_frame_queue s1) = (rf, s2)" by (rule prod.exhaust)
    then have fok: "rc rf = VmbErrorSuccess" by (auto simp: vmb_def answer_def)
    obtain rp s3 where pay: "vmb dev_payload_8192 VmbPayloadSizeGet s2 = (rp, s3)" by (rule prod.exhaust)
    then have p: "rc rp = VmbErrorSuccess" "ival rp = 8192" by (auto simp: vmb_def answer_def)
    from set_caps_reallocates_iff_needed [OF fmt stop fset fok pay, of 1] p sz run
    have "\<exists>xs. new_calls s3 s' = concat (map (revoke_calls s3) [0..<1]) @ VmbPayloadSizeGet # xs"
      by simp
    with run c b show ?thesis by simp
  qed
  from small big show ?thesis by simp
qed

subsection \<open>The region of interest\<close>

















end
